theory Spec2Isabelle
  imports Complex_Main "HOL-Library.AList"
begin

section \<open>Storage agents: currency views and bounded increments\<close>

text \<open>
  The embedding follows \<^verbatim>\<open>agent_model/agents/core.py\<close>. Python floats are idealised as
  \<^typ>\<open>real\<close>, Python ints as \<^typ>\<open>int\<close>, insertion-ordered dicts whose order is
  observable as association lists, and every exception is a value of \<open>error\<close>.
\<close>

datatype error = KeyError | ValueError | TypeError | MissingAttribute | ZeroDivisionError | IndexError | NonFinite

text \<open>
  An entry of \<^verbatim>\<open>currency_dict\<close>: its \<^verbatim>\<open>'type'\<close> is \<^verbatim>\<open>'currency'\<close> (with its
  \<^verbatim>\<open>'class'\<close>), \<^verbatim>\<open>'currency_class'\<close> (with its \<^verbatim>\<open>'currencies'\<close>) or anything else.
\<close>

datatype currency_data = Currency string | Currency_Class "string list" | Unrecognized

text \<open>
  Modelled from the spec: \<^verbatim>\<open>AttributeHolder\<close> (\<^verbatim>\<open>agent_model/attribute_meta.py\<close>), which
  gives \<^verbatim>\<open>self[name]\<close> and \<^verbatim>\<open>name in self\<close>, is missing from the sources. Following the
  data model of the spec (a balance per currency and a capacity per currency), the
  attribute \<^verbatim>\<open>self[c]\<close> of a currency, or of any other name that is not a capacity, is
  \<open>balance s c\<close>, the attribute \<^verbatim>\<open>self['char_capacity_' + c]\<close> is \<open>capacity s c\<close>,
  \<^verbatim>\<open>c in self\<close> is \<open>balance s c \<noteq> None\<close>, and reading an absent attribute raises
  \<open>MissingAttribute\<close>.
\<close>

record storage =
  agent_type :: string
  amount :: int
  currency_dict :: "string \<rightharpoonup> currency_data"
  balance :: "string \<rightharpoonup> real"
  capacity :: "string \<rightharpoonup> real"

text \<open>\<^verbatim>\<open>{c: self[c] for c in currencies if c in self}\<close>, built left to right.\<close>

fun class_view :: "(string \<rightharpoonup> real) \<Rightarrow> string list \<Rightarrow> (string \<times> real) list \<Rightarrow> (string \<times> real) list" where
  "class_view bal [] acc = acc"
| "class_view bal (c # cs) acc =
     (case bal c of
        None \<Rightarrow> class_view bal cs acc
      | Some b \<Rightarrow> class_view bal cs (AList.update c b acc))"

text \<open>\<^verbatim>\<open>StorageAgent.view\<close>.\<close>

definition view :: "('a storage_scheme) \<Rightarrow> string \<Rightarrow> error + (string \<times> real) list" where
  "view s v =
     (case currency_dict s v of
        None \<Rightarrow> Inl KeyError
      | Some (Currency cls) \<Rightarrow>
          (case balance s v of None \<Rightarrow> Inl MissingAttribute | Some b \<Rightarrow> Inr [(v, b)])
      | Some (Currency_Class cs) \<Rightarrow> Inr (class_view (balance s) cs [])
      | Some Unrecognized \<Rightarrow> Inl KeyError)"

text \<open>
  The loop of the negative branch of \<^verbatim>\<open>StorageAgent.increment\<close>: \<open>ratios\<close> was computed
  before the loop, \<^verbatim>\<open>self[currency]\<close> is read again in every iteration.
\<close>

fun decrement_members ::
  "real \<Rightarrow> (string \<times> real) list \<Rightarrow> (string \<rightharpoonup> real) \<Rightarrow> (string \<times> real) list
     \<Rightarrow> error + ((string \<rightharpoonup> real) \<times> (string \<times> real) list)" where
  "decrement_members a [] bal flow = Inr (bal, flow)"
| "decrement_members a ((c, ratio) # rs) bal flow =
     (case bal c of
        None \<Rightarrow> Inl MissingAttribute
      | Some b \<Rightarrow>
          (let currency_increment_target = a * ratio;
               currency_amount = max (b + currency_increment_target) 0;
               currency_increment_actual = b - currency_amount
           in decrement_members a rs (bal(c \<mapsto> currency_amount))
                (AList.update c currency_increment_actual flow)))"

text \<open>\<^verbatim>\<open>StorageAgent.increment\<close>: the new state and the returned dict.\<close>

definition increment ::
  "('a storage_scheme) \<Rightarrow> string \<Rightarrow> real \<Rightarrow> error + (('a storage_scheme) \<times> (string \<times> real) list)" where
  "increment s v increment_amount =
     (if increment_amount > 0 then
        (case currency_dict s v of
           None \<Rightarrow> Inl KeyError
         | Some cd \<Rightarrow>
             (case cd of
                Currency cls \<Rightarrow>
                  (case capacity s v of
                     None \<Rightarrow> Inl MissingAttribute
                   | Some cap \<Rightarrow>
                       (case balance s v of
                          None \<Rightarrow> Inl MissingAttribute
                        | Some b \<Rightarrow>
                            (let capacity' = cap * real_of_int (amount s);
                                 currency_amount = min (b + increment_amount) capacity';
                                 currency_increment_actual = b - currency_amount
                             in Inr (s\<lparr>balance := (balance s)(v \<mapsto> currency_amount)\<rparr>,
                                     [(v, currency_increment_actual)]))))
              | _ \<Rightarrow> Inl ValueError))
      else if increment_amount < 0 then
        (case view s v of
           Inl e \<Rightarrow> Inl e
         | Inr currencies \<Rightarrow>
             (let total_view_amount = sum_list (map snd currencies)
              in if total_view_amount \<le> 0 then Inr (s, map (\<lambda>(c, b). (c, 0)) currencies)
                 else
                   (case decrement_members increment_amount
                           (map (\<lambda>(c, b). (c, b / total_view_amount)) currencies) (balance s) [] of
                      Inl e \<Rightarrow> Inl e
                    | Inr (bal', flow) \<Rightarrow> Inr (s\<lparr>balance := bal'\<rparr>, flow))))
      else Inr (s, []))"

text \<open>
  A sequence of calls on one storage. A call that raises has not yet written anything
  (every raise of \<^verbatim>\<open>increment\<close> precedes its first assignment), so the storage is as
  before the call.
\<close>

fun increments :: "('a storage_scheme) \<Rightarrow> (string \<times> real) list \<Rightarrow> ('a storage_scheme)" where
  "increments s [] = s"
| "increments s ((v, a) # calls) =
     (case increment s v a of
        Inl e \<Rightarrow> increments s calls
      | Inr (s', flow) \<Rightarrow> increments s' calls)"

text \<open>The invariant of the data model: \<open>0 \<le> balance[c] \<le> capacity[c] * amount\<close>.\<close>

definition within_capacity :: "('a storage_scheme) \<Rightarrow> bool" where
  "within_capacity s \<longleftrightarrow>
     (\<forall>c b cap. balance s c = Some b \<and> capacity s c = Some cap
        \<longrightarrow> 0 \<le> b \<and> b \<le> cap * real_of_int (amount s))"

text \<open>Example storages.\<close>

definition o2_tank :: storage where
  "o2_tank = \<lparr>agent_type = ''o2_storage'', amount = 1,
     currency_dict = [''o2'' \<mapsto> Currency ''atmosphere''],
     balance = [''o2'' \<mapsto> 0], capacity = [''o2'' \<mapsto> 100]\<rparr>"

definition water_tank :: storage where
  "water_tank = \<lparr>agent_type = ''water_storage'', amount = 1,
     currency_dict = [''water'' \<mapsto> Currency_Class [''potable'', ''grey''],
                      ''potable'' \<mapsto> Currency ''water'', ''grey'' \<mapsto> Currency ''water''],
     balance = [''potable'' \<mapsto> 30, ''grey'' \<mapsto> 10],
     capacity = [''potable'' \<mapsto> 100, ''grey'' \<mapsto> 100, ''water'' \<mapsto> 200]\<rparr>"

section \<open>Flow agents\<close>

subsection \<open>Python helpers\<close>

text \<open>\<^verbatim>\<open>s.split(sep)\<close> for a one-character separator: every separator ends a field.\<close>

fun split_on :: "char \<Rightarrow> string \<Rightarrow> string \<Rightarrow> string list" where
  "split_on sep cur [] = [rev cur]"
| "split_on sep cur (c # cs) =
     (if c = sep then rev cur # split_on sep [] cs else split_on sep (c # cur) cs)"

definition split :: "char \<Rightarrow> string \<Rightarrow> string list" where
  "split sep s = split_on sep [] s"

text \<open>\<^verbatim>\<open>sep.join(parts)\<close>.\<close>

fun join :: "string \<Rightarrow> string list \<Rightarrow> string" where
  "join sep [] = []"
| "join sep [p] = p"
| "join sep (p # q # ps) = p @ sep @ join sep (q # ps)"

definition startswith :: "string \<Rightarrow> string \<Rightarrow> bool" where
  "startswith s p \<longleftrightarrow> take (length p) s = p"

text \<open>\<^verbatim>\<open>int(x)\<close> of a float truncates towards zero.\<close>

definition py_int :: "real \<Rightarrow> int" where
  "py_int x = (if 0 \<le> x then \<lfloor>x\<rfloor> else \<lceil>x\<rceil>)"

text \<open>
  \<^verbatim>\<open>xs[i]\<close> on a list or an array: an index below zero is taken from the end, and an
  index outside \<open>-len \<dots> len - 1\<close> raises.
\<close>

definition getitem :: "'a list \<Rightarrow> int \<Rightarrow> error + 'a" where
  "getitem xs i =
     (if 0 \<le> i \<and> i < int (length xs) then Inr (xs ! nat i)
      else if - int (length xs) \<le> i \<and> i < 0 then Inr (xs ! nat (int (length xs) + i))
      else Inl IndexError)"

text \<open>
  The quotient \<^verbatim>\<open>x / y\<close> of two floats as Python computes it: the exact quotient rounded
  to the nearest IEEE 754 double, ties to even. \<open>normalise\<close> brings the magnitude to the
  form \<open>m * 2 ^ e\<close> with \<open>2 ^ 52 \<le> m < 2 ^ 53\<close> (or \<open>e = -1074\<close> for a subnormal), the
  mantissa is rounded to an integer, and a result of \<open>2 ^ 1024\<close> or more is an infinity,
  which \<^verbatim>\<open>math.floor\<close> refuses.
\<close>

definition round_half_even :: "real \<Rightarrow> int" where
  "round_half_even x =
     (let n = \<lfloor>x\<rfloor>; r = x - real_of_int n
      in if r < 1 / 2 then n else if 1 / 2 < r then n + 1 else if even n then n else n + 1)"

fun normalise :: "nat \<Rightarrow> real \<Rightarrow> int \<Rightarrow> real \<times> int" where
  "normalise 0 m e = (m, e)"
| "normalise (Suc k) m e =
     (if 2 ^ 53 \<le> m then normalise k (m / 2) (e + 1)
      else if m < 2 ^ 52 \<and> - 1074 < e then normalise k (m * 2) (e - 1)
      else (m, e))"

definition scale2 :: "int \<Rightarrow> int \<Rightarrow> real" where
  "scale2 n e = (if 0 \<le> e then real_of_int n * 2 ^ nat e else real_of_int n / 2 ^ nat (- e))"

definition float_div :: "real \<Rightarrow> real \<Rightarrow> error + real" where
  "float_div x y =
     (if y = 0 then Inl ZeroDivisionError
      else
        (case normalise 2200 \<bar>x / y\<bar> 0 of (m, e) \<Rightarrow>
           (let r = scale2 (round_half_even m) e
            in if 2 ^ 1024 \<le> r then Inl NonFinite
               else Inr (if x / y < 0 then - r else r))))"

subsection \<open>Agent and model state\<close>

datatype attr_value = Num real | Str string

datatype direction = In | Out

fun prefix_of :: "direction \<Rightarrow> string" where
  "prefix_of In = ''in''"
| "prefix_of Out = ''out''"

text \<open>
  One entry of \<^verbatim>\<open>attr_details\<close>, with the keys that the step reads. A key that the code
  reads with \<^verbatim>\<open>.get\<close> or tests for truth is an option.
\<close>

record details =
  criteria_name :: "string option"
  criteria_limit :: string
  criteria_value :: "real option"
  criteria_buffer :: "real option"
  requires :: "string list"
  is_required :: "string option"
  deprive_value :: "real option"
  delta_per_step :: "real option"
  scope :: string
  probability_per_step :: real
  magnitude_value :: real
  magnitude_variation_distribution :: "string option"
  duration_value :: "real option"
  duration_variation_distribution :: "string option"
  duration_delta_per_step :: real

text \<open>An event instance: \<^verbatim>\<open>dict(magnitude=...)\<close> with an optional \<^verbatim>\<open>'duration'\<close>.\<close>

record event_instance =
  magnitude :: real
  duration :: "real option"

text \<open>
  A \<^verbatim>\<open>GeneralAgent\<close>. Connected storages are references into the agent store, the
  ordered dicts \<^verbatim>\<open>attrs\<close>, \<^verbatim>\<open>selected_storage[prefix]\<close> and \<^verbatim>\<open>event_multipliers\<close> are
  association lists, and \<^verbatim>\<open>step_exchange_buffer[prefix][currency][agent_type]\<close> is keyed by
  the triple.
\<close>

record agent = storage +
  active :: bool
  cause_of_death :: "string option"
  age :: real
  attrs :: "(string \<times> attr_value) list"
  attr_details :: "string \<rightharpoonup> details"
  selected_storage :: "direction \<Rightarrow> (string \<times> string list) list"
  buffer :: "string \<rightharpoonup> real"
  deprive :: "string \<rightharpoonup> real"
  step_values :: "string \<rightharpoonup> real list"
  events :: "string \<rightharpoonup> event_instance list"
  event_multipliers :: "(string \<times> real) list"
  process_events :: bool
  step_variation :: bool
  step_variable :: real
  missing_desired :: bool
  step_exchange_buffer :: "(direction \<times> string \<times> string) \<rightharpoonup> real"

text \<open>
  Modelled from the spec: \<^verbatim>\<open>variation_func.get_variable\<close> and the shared random generator
  are missing from the sources. A \<open>roll\<close> holds the values drawn for one slot: the sample
  of \<^verbatim>\<open>random_state.rand()\<close> and the variables that \<^verbatim>\<open>get_variable\<close> returns for the
  magnitude, the duration and the step variation.
\<close>

record roll =
  instance_variable :: real
  magnitude_variable :: real
  duration_variable :: real
  step_variable_drawn :: real

text \<open>
  The model as the agents see it: the other agents by reference, the shared ratio cache
  \<^verbatim>\<open>storage_ratios[storage_id][name]\<close>, the clock parameters, and the random generator as
  the sequence of its draws with the position of the next one.
\<close>

record world =
  agents :: "string \<rightharpoonup> agent"
  storage_ratios :: "(string \<times> (string \<times> real) list) list"
  hours_per_step :: real
  day_length_hours :: real
  random_state :: "nat \<Rightarrow> roll"
  random_pos :: nat

text \<open>The agent behind a reference: the stepping agent itself or an agent of the store.\<close>

definition resolve :: "string \<Rightarrow> agent \<Rightarrow> world \<Rightarrow> string \<Rightarrow> agent option" where
  "resolve me self w r = (if r = me then Some self else agents w r)"

subsection \<open>Target values\<close>

text \<open>\<^verbatim>\<open>GeneralAgent._get_storage_ratio\<close>.\<close>

fun sum_ratios :: "string \<Rightarrow> (string \<times> (string \<times> real) list) list \<Rightarrow> real" where
  "sum_ratios cr_name [] = 0"
| "sum_ratios cr_name ((storage_id, ratios) # rest) =
     (case map_of ratios cr_name of
        None \<Rightarrow> sum_ratios cr_name rest
      | Some x \<Rightarrow> x + sum_ratios cr_name rest)"

definition get_storage_ratio :: "string \<Rightarrow> agent \<Rightarrow> world \<Rightarrow> string \<Rightarrow> error + real" where
  "get_storage_ratio me self w cr_name =
     (let elements = split CHR ''_'' cr_name; direction = last elements
      in if direction = ''in'' \<or> direction = ''out'' then
           (let currency = hd elements;
                cr_actual = join ''_'' (take 2 elements);
                d = (if direction = ''in'' then In else Out)
            in case map_of (selected_storage self d) currency of
                 None \<Rightarrow> Inl KeyError
               | Some [] \<Rightarrow> Inl IndexError
               | Some (r # rs) \<Rightarrow>
                   (case resolve me self w r of
                      None \<Rightarrow> Inl KeyError
                    | Some st \<Rightarrow>
                        (case map_of (storage_ratios w) (agent_type st) of
                           None \<Rightarrow> Inl KeyError
                         | Some ratios \<Rightarrow>
                             (case map_of ratios cr_actual of
                                None \<Rightarrow> Inl KeyError
                              | Some x \<Rightarrow> Inr (0 + x)))))
         else Inr (sum_ratios cr_name (storage_ratios w)))"

text \<open>The comparison \<^verbatim>\<open>{'>': gt, '<': lt, '=': eq}[cr_limit]\<close>.\<close>

definition opp :: "string \<Rightarrow> (real \<Rightarrow> real \<Rightarrow> bool) option" where
  "opp cr_limit =
     (if cr_limit = ''>'' then Some (\<lambda>x y. x > y)
      else if cr_limit = ''<'' then Some (\<lambda>x y. x < y)
      else if cr_limit = ''='' then Some (\<lambda>x y. x = y)
      else None)"

text \<open>The curve lookup at the end of \<^verbatim>\<open>GeneralAgent._get_step_value\<close>.\<close>

definition lookup_step_value :: "agent \<Rightarrow> world \<Rightarrow> string \<Rightarrow> int \<Rightarrow> error + real" where
  "lookup_step_value self w attr step_num =
     (case step_values self attr of
        None \<Rightarrow> Inl KeyError
      | Some values \<Rightarrow>
          (if step_num \<ge> int (length values) then
             (if py_int (day_length_hours w) = 0 then Inl ZeroDivisionError
              else getitem values (step_num mod py_int (day_length_hours w)))
           else getitem values step_num))"

definition return_step_value :: "agent \<Rightarrow> world \<Rightarrow> string \<Rightarrow> int \<Rightarrow> error + (agent \<times> real)" where
  "return_step_value self w attr step_num =
     (case lookup_step_value self w attr step_num of
        Inl e \<Rightarrow> Inl e
      | Inr agent_value \<Rightarrow> Inr (self, agent_value))"

text \<open>
  The source of a criteria: \<^verbatim>\<open>self[cr_name]\<close> if \<^verbatim>\<open>cr_name in self\<close>, else the storage
  ratio of that name.
\<close>

definition criteria_source :: "string \<Rightarrow> agent \<Rightarrow> world \<Rightarrow> string \<Rightarrow> error + real" where
  "criteria_source me self w cr_name =
     (case balance self cr_name of
        Some x \<Rightarrow> Inr x
      | None \<Rightarrow> get_storage_ratio me self w cr_name)"

text \<open>\<^verbatim>\<open>x or 0.0\<close> and \<^verbatim>\<open>d.get(k, 0)\<close> on an optional number.\<close>

definition or_zero :: "real option \<Rightarrow> real" where
  "or_zero x = (case x of None \<Rightarrow> 0 | Some v \<Rightarrow> v)"

text \<open>
  \<^verbatim>\<open>GeneralAgent._get_step_value\<close>: the agent with its buffer updated, and the magnitude of
  the returned quantity (the unit is not modelled).
\<close>

definition get_step_value ::
  "string \<Rightarrow> agent \<Rightarrow> world \<Rightarrow> string \<Rightarrow> int \<Rightarrow> error + (agent \<times> real)" where
  "get_step_value me self w attr step_num =
     (case attr_details self attr of
        None \<Rightarrow> Inl KeyError
      | Some ad \<Rightarrow>
          (case criteria_name ad of
             None \<Rightarrow> return_step_value self w attr step_num
           | Some cr_name \<Rightarrow>
               (if cr_name = [] then return_step_value self w attr step_num
                else
                  (let cr_limit = criteria_limit ad;
                       cr_value = or_zero (criteria_value ad);
                       cr_buffer = or_zero (criteria_buffer ad)
                   in case criteria_source me self w cr_name of
                        Inl e \<Rightarrow> Inl e
                      | Inr source \<Rightarrow>
                          (case opp cr_limit of
                             None \<Rightarrow> Inl KeyError
                           | Some cmp \<Rightarrow>
                               (if cmp source cr_value then
                                  (if cr_buffer > 0 \<and> or_zero (buffer self attr) > 0
                                   then Inr (self\<lparr>buffer := (buffer self)(attr \<mapsto>
                                               or_zero (buffer self attr) - 1)\<rparr>, 0)
                                   else return_step_value self w attr step_num)
                                else
                                  (if cr_buffer > 0
                                   then Inr (self\<lparr>buffer := (buffer self)(attr \<mapsto> cr_buffer)\<rparr>, 0)
                                   else Inr (self, 0))))))))"

section \<open>Plants: the CO2 scale\<close>

text \<open>\<^verbatim>\<open>attr.split('_', 1)\<close>, unpacked into two names: \<open>None\<close> when there is no separator.\<close>

fun split_first :: "char \<Rightarrow> string \<Rightarrow> string \<Rightarrow> (string \<times> string) option" where
  "split_first sep cur [] = None"
| "split_first sep cur (c # cs) =
     (if c = sep then Some (rev cur, cs) else split_first sep (c # cur) cs)"

text \<open>
  The first half of \<^verbatim>\<open>PlantAgent._calculate_co2_scale\<close> when nothing is cached for the
  current time: the CO2 uptake ratio and the transpiration efficiency factor for a CO2
  ratio of the connected storage. \<^verbatim>\<open>np.interp\<close> over the breakpoints \<open>350, 700\<close> is
  linear between them and constant outside.
\<close>

definition interp_te :: "real \<Rightarrow> real" where
  "interp_te co2_ppm =
     (if co2_ppm \<le> 350 then 1
      else if co2_ppm \<ge> 700 then 137 / 100
      else 1 + (co2_ppm - 350) / (700 - 350) * (137 / 100 - 1))"

definition co2_response :: "string option \<Rightarrow> real \<Rightarrow> real \<times> real" where
  "co2_response carbon_fixation co2_ratio_in =
     (let co2_ppm = max 350 (min 1000 (co2_ratio_in * 1000000));
          t_mean = 25;
          co2_uptake_ratio =
            (if carbon_fixation = Some ''c3'' then
               (let tt = (163 - t_mean) / (5 - 1 / 10 * t_mean);
                    numerator = (co2_ppm - tt) * (350 + 2 * tt);
                    denominator = (co2_ppm + 2 * tt) * (350 - tt)
                in numerator / denominator)
             else 1);
          transpiration_efficiency_factor = interp_te co2_ppm
      in (co2_uptake_ratio, transpiration_efficiency_factor))"

text \<open>
  The loop over \<^verbatim>\<open>self.attrs\<close> that fills \<^verbatim>\<open>sv_baseline\<close> and \<^verbatim>\<open>sv_adjusted\<close>, one
  attribute at a time; the state
  is \<open>(baseline_in, baseline_out, adjusted_in, adjusted_out)\<close>. A division by a zero
  floating-point number gives an infinity or a NaN in numpy: the model stops with
  \<open>NonFinite\<close> there.
\<close>

type_synonym sv = "(string \<times> real) list"

definition adjust_attr ::
  "string \<Rightarrow> (string \<rightharpoonup> real list) \<Rightarrow> int \<Rightarrow> real \<Rightarrow> real \<Rightarrow> string
     \<Rightarrow> sv \<times> sv \<times> sv \<times> sv \<Rightarrow> error + (sv \<times> sv \<times> sv \<times> sv)" where
  "adjust_attr atype svs step_num cu te attr acc =
     (case acc of (base_in, base_out, adj_in, adj_out) \<Rightarrow>
      (case split_first CHR ''_'' [] attr of
        None \<Rightarrow> Inl ValueError
      | Some (prefix, currency) \<Rightarrow>
          (if prefix \<noteq> ''in'' \<and> prefix \<noteq> ''out'' then Inr acc
           else
             (case svs attr of
                None \<Rightarrow> Inl KeyError
              | Some values \<Rightarrow>
                  (case getitem values step_num of
                     Inl e \<Rightarrow> Inl e
                   | Inr step_value \<Rightarrow>
                       (let base_in' = (if prefix = ''in'' then AList.update currency step_value base_in else base_in);
                            base_out' = (if prefix = ''out'' then AList.update currency step_value base_out else base_out)
                        in if attr \<in> set [''in_biomass'', ''out_'' @ atype]
                           then Inr (base_in', base_out', adj_in, adj_out)
                           else if currency \<in> set [''co2'', ''fertilizer'', ''o2'', ''biomass'', atype]
                           then Inr (base_in', base_out',
                                   if prefix = ''in'' then AList.update currency (step_value * cu) adj_in else adj_in,
                                   if prefix = ''out'' then AList.update currency (step_value * cu) adj_out else adj_out)
                           else if currency \<in> set [''potable'', ''h2o'']
                           then (if te = 0 then Inl NonFinite
                                 else Inr (base_in', base_out',
                                   if prefix = ''in'' then AList.update currency (step_value * (1 / te)) adj_in else adj_in,
                                   if prefix = ''out'' then AList.update currency (step_value * (1 / te)) adj_out else adj_out))
                           else Inr (base_in', base_out', adj_in, adj_out)))))))"

fun adjust_step_values ::
  "string \<Rightarrow> (string \<rightharpoonup> real list) \<Rightarrow> int \<Rightarrow> real \<Rightarrow> real \<Rightarrow> string list
     \<Rightarrow> sv \<times> sv \<times> sv \<times> sv \<Rightarrow> error + (sv \<times> sv \<times> sv \<times> sv)" where
  "adjust_step_values atype svs step_num cu te [] acc = Inr acc"
| "adjust_step_values atype svs step_num cu te (attr # rest) acc =
     (case adjust_attr atype svs step_num cu te attr acc of
        Inl e \<Rightarrow> Inl e
      | Inr acc' \<Rightarrow> adjust_step_values atype svs step_num cu te rest acc')"

text \<open>
  ``Remove error proportionally from outputs'': the adjusted outputs after the correction.
\<close>

definition remove_error :: "real \<Rightarrow> sv \<Rightarrow> sv \<Rightarrow> error + sv" where
  "remove_error value_eps adj_in adj_out =
     (let net_inputs = sum_list (map snd adj_in);
          net_outputs = sum_list (map snd adj_out);
          sv_error = net_inputs - net_outputs
      in if sv_error > value_eps then
           (if adj_out \<noteq> [] \<and> net_outputs = 0 then Inl NonFinite
            else Inr (map (\<lambda>(currency, v). (currency, v + (v / net_outputs) * sv_error)) adj_out))
         else Inr adj_out)"

text \<open>The scale factors: \<^verbatim>\<open>1 if not adjusted else adjusted / baseline\<close>.\<close>

fun scale_factors :: "string \<Rightarrow> sv \<Rightarrow> sv \<Rightarrow> sv \<Rightarrow> error + sv" where
  "scale_factors prefix [] adjusted acc = Inr acc"
| "scale_factors prefix ((currency, baseline) # rest) adjusted acc =
     (case map_of adjusted currency of
        None \<Rightarrow> scale_factors prefix rest adjusted (AList.update (prefix @ ''_'' @ currency) 1 acc)
      | Some a \<Rightarrow>
          (if a = 0 then scale_factors prefix rest adjusted (AList.update (prefix @ ''_'' @ currency) 1 acc)
           else if baseline = 0 then Inl NonFinite
           else scale_factors prefix rest adjusted
                  (AList.update (prefix @ ''_'' @ currency) (a / baseline) acc)))"

text \<open>
  The second half of \<^verbatim>\<open>PlantAgent._calculate_co2_scale\<close>, from ``Calculate co2-adjusted
  step values'' on, for given \<^verbatim>\<open>co2_uptake_ratio\<close> and
  \<^verbatim>\<open>transpiration_efficiency_factor\<close>.
\<close>

definition calculate_co2_scale :: "agent \<Rightarrow> int \<Rightarrow> real \<Rightarrow> real \<Rightarrow> real \<Rightarrow> error + sv" where
  "calculate_co2_scale self step_num co2_uptake_ratio transpiration_efficiency_factor value_eps =
     (case adjust_step_values (agent_type self) (step_values self) step_num co2_uptake_ratio
             transpiration_efficiency_factor (map fst (attrs self)) ([], [], [], []) of
        Inl e \<Rightarrow> Inl e
      | Inr (base_in, base_out, adj_in, adj_out) \<Rightarrow>
          (case remove_error value_eps adj_in adj_out of
             Inl e \<Rightarrow> Inl e
           | Inr adj_out' \<Rightarrow>
               (case scale_factors ''in'' base_in adj_in [] of
                  Inl e \<Rightarrow> Inl e
                | Inr scale_in \<Rightarrow> scale_factors ''out'' base_out adj_out' scale_in)))"

section \<open>Events\<close>

text \<open>\<^verbatim>\<open>kill\<close> and \<^verbatim>\<open>destroy\<close>: the agent is marked dead (the scheduler drops it).\<close>

definition kill :: "string \<Rightarrow> agent \<Rightarrow> agent" where
  "kill reason self = self\<lparr>cause_of_death := Some reason, active := False\<rparr>"

text \<open>The slice \<^verbatim>\<open>xs[:n]\<close>: a negative \<open>n\<close> drops from the end.\<close>

definition slice_to :: "int \<Rightarrow> 'a list \<Rightarrow> 'a list" where
  "slice_to n xs = (if 0 \<le> n then take (nat n) xs else take (length xs - nat (- n)) xs)"

text \<open>The first two passes of \<^verbatim>\<open>_process_event\<close>: age the instances and drop the expired ones.\<close>

definition age_instance :: "real \<Rightarrow> event_instance \<Rightarrow> event_instance" where
  "age_instance delta e =
     (case duration e of None \<Rightarrow> e | Some d \<Rightarrow> e\<lparr>duration := Some (d - delta)\<rparr>)"

definition unexpired :: "event_instance \<Rightarrow> bool" where
  "unexpired e \<longleftrightarrow> (case duration e of None \<Rightarrow> True | Some d \<Rightarrow> \<not> d \<le> 0)"

text \<open>The instance built when the roll succeeds for a \<^verbatim>\<open>'multiplier'\<close> event.\<close>

definition new_instance :: "details \<Rightarrow> roll \<Rightarrow> event_instance" where
  "new_instance ad r =
     (let magnitude0 = magnitude_value ad;
          magnitude1 =
            (if magnitude_variation_distribution ad \<noteq> None
                \<and> magnitude_variation_distribution ad \<noteq> Some []
             then magnitude0 * magnitude_variable r else magnitude0)
      in case duration_value ad of
           None \<Rightarrow> \<lparr>magnitude = magnitude1, duration = None\<rparr>
         | Some duration0 \<Rightarrow>
             (if duration0 = 0 then \<lparr>magnitude = magnitude1, duration = None\<rparr>
              else \<lparr>magnitude = magnitude1,
                    duration = Some (if duration_variation_distribution ad \<noteq> None
                                        \<and> duration_variation_distribution ad \<noteq> Some []
                                     then duration0 * duration_variable r else duration0)\<rparr>))"

text \<open>One turn of the loop ``randomly generate new instances''.\<close>

definition roll_slot ::
  "attr_value \<Rightarrow> details \<Rightarrow> string \<Rightarrow> roll \<Rightarrow> agent \<times> event_instance list
     \<Rightarrow> agent \<times> event_instance list" where
  "roll_slot attr_value ad event_type r st =
     (case st of (self, instances) \<Rightarrow>
        if instance_variable r > probability_per_step ad then (self, instances)
        else if attr_value = Str ''termination''
        then (kill (''Agent died due to '' @ event_type) self, instances)
        else if attr_value = Str ''multiplier''
        then (self, instances @ [new_instance ad r])
        else (self, instances))"

fun roll_slots ::
  "nat \<Rightarrow> attr_value \<Rightarrow> details \<Rightarrow> string \<Rightarrow> (nat \<Rightarrow> roll) \<Rightarrow> nat
     \<Rightarrow> agent \<times> event_instance list \<Rightarrow> agent \<times> event_instance list" where
  "roll_slots 0 attr_value ad event_type rs pos st = st"
| "roll_slots (Suc n) attr_value ad event_type rs pos st =
     roll_slots n attr_value ad event_type rs (Suc pos)
       (roll_slot attr_value ad event_type (rs pos) st)"

text \<open>``Update event records''.\<close>

definition update_event_records ::
  "string \<Rightarrow> int \<Rightarrow> event_instance list \<Rightarrow> agent \<Rightarrow> error + agent" where
  "update_event_records event_type max_instances instances self =
     (if length instances = 0 \<and> events self event_type \<noteq> None then
        (if map_of (event_multipliers self) event_type = None then Inl KeyError
         else Inr (self\<lparr>events := (events self)(event_type := None),
                         event_multipliers := AList.delete event_type (event_multipliers self)\<rparr>))
      else if length instances > 0 then
        (let modified = sum_list (map magnitude instances);
             unmodified = max_instances - int (length instances)
         in if max_instances = 0 then Inl ZeroDivisionError
            else Inr (self\<lparr>events := (events self)(event_type \<mapsto> instances),
                            event_multipliers :=
                              AList.update event_type
                                ((modified + real_of_int unmodified) / real_of_int max_instances)
                                (event_multipliers self)\<rparr>))
      else Inr self)"

text \<open>\<^verbatim>\<open>GeneralAgent._process_event\<close>.\<close>

definition process_event ::
  "agent \<Rightarrow> world \<Rightarrow> string \<Rightarrow> attr_value \<Rightarrow> error + (agent \<times> world)" where
  "process_event self w attr attr_value =
     (case split_first CHR ''_'' [] attr of
        None \<Rightarrow> Inl IndexError
      | Some (p, event_type) \<Rightarrow>
          (case attr_details self attr of
             None \<Rightarrow> Inl KeyError
           | Some ad \<Rightarrow>
               (let instances0 = (case events self event_type of None \<Rightarrow> [] | Some xs \<Rightarrow> xs);
                    instances1 = filter unexpired (map (age_instance (duration_delta_per_step ad)) instances0);
                    instances2 = (if int (length instances1) > amount self
                                  then slice_to (amount self) instances1 else instances1);
                    max_instances = (if scope ad = ''group'' then 1 else amount self);
                    max_new_instances = max_instances - int (length instances2);
                    (self', instances3) =
                      roll_slots (nat max_new_instances) attr_value ad event_type
                        (random_state w) (random_pos w) (self, instances2)
                in case update_event_records event_type max_instances instances3 self' of
                     Inl e \<Rightarrow> Inl e
                   | Inr self'' \<Rightarrow>
                       Inr (self'', w\<lparr>random_pos := random_pos w + nat max_new_instances\<rparr>))))"

text \<open>The number of active instances of an event type.\<close>

definition instance_count :: "agent \<Rightarrow> string \<Rightarrow> nat" where
  "instance_count self event_type =
     (case events self event_type of None \<Rightarrow> 0 | Some xs \<Rightarrow> length xs)"

section \<open>The step of a flow agent\<close>

subsection \<open>Storage ratios\<close>

text \<open>\<^verbatim>\<open>s.split(sep, n)\<close>: at most \<open>n\<close> splits.\<close>

fun split_max :: "nat \<Rightarrow> char \<Rightarrow> string \<Rightarrow> string \<Rightarrow> string list" where
  "split_max n sep cur [] = [rev cur]"
| "split_max n sep cur (c # cs) =
     (if c = sep \<and> 0 < n then rev cur # split_max (n - 1) sep [] cs
      else split_max n sep (c # cur) cs)"

text \<open>
  \<^verbatim>\<open>StorageAgent._calculate_storage_ratios\<close>. The unit conversion of the \<^verbatim>\<open>quantities\<close>
  package is not modelled: all capacities of one storage are taken to carry one unit, so
  \<^verbatim>\<open>total\<close> is the sum of the balances.
\<close>

definition storage_value :: "(string \<rightharpoonup> real) \<Rightarrow> string \<Rightarrow> sv \<Rightarrow> error + sv" where
  "storage_value bal attr temp =
     (if startswith attr ''char_capacity'' then
        (case drop 2 (split_max 2 CHR ''_'' [] attr) of
           [] \<Rightarrow> Inl IndexError
         | currency # ignored \<Rightarrow>
             (case bal currency of
                None \<Rightarrow> Inl MissingAttribute
              | Some v \<Rightarrow> Inr (AList.update currency v temp)))
      else Inr temp)"

fun storage_values :: "(string \<rightharpoonup> real) \<Rightarrow> string list \<Rightarrow> sv \<Rightarrow> error + sv" where
  "storage_values bal [] temp = Inr temp"
| "storage_values bal (attr # rest) temp =
     (case storage_value bal attr temp of
        Inl e \<Rightarrow> Inl e
      | Inr temp' \<Rightarrow> storage_values bal rest temp')"

fun write_ratios :: "real \<Rightarrow> sv \<Rightarrow> sv \<Rightarrow> sv" where
  "write_ratios tot [] ratios = ratios"
| "write_ratios tot ((currency, v) # rest) ratios =
     write_ratios tot rest
       (AList.update (currency @ ''_ratio'') (if v > 0 then v / tot else 0) ratios)"

definition calculate_storage_ratios :: "agent \<Rightarrow> world \<Rightarrow> error + world" where
  "calculate_storage_ratios self w =
     (case storage_values (balance self) (map fst (attrs self)) [] of
        Inl e \<Rightarrow> Inl e
      | Inr temp \<Rightarrow>
          (let total = sum_list (map snd temp);
               old = (case map_of (storage_ratios w) (agent_type self) of
                        None \<Rightarrow> [] | Some ratios \<Rightarrow> ratios)
           in if total = 0 \<and> list_ex (\<lambda>(currency, v). v > 0) temp then Inl ZeroDivisionError
              else Inr (w\<lparr>storage_ratios :=
                     AList.update (agent_type self) (write_ratios total temp old) (storage_ratios w)\<rparr>)))"

text \<open>\<^verbatim>\<open>StorageAgent.step\<close>; \<^verbatim>\<open>has_storage\<close> is set when some attribute declares a capacity.\<close>

definition has_storage :: "agent \<Rightarrow> bool" where
  "has_storage self \<longleftrightarrow> list_ex (\<lambda>attr. startswith attr ''char_capacity'') (map fst (attrs self))"

definition storage_step :: "agent \<Rightarrow> world \<Rightarrow> error + world" where
  "storage_step self w = (if has_storage self then calculate_storage_ratios self w else Inr w)"

subsection \<open>Thresholds, custom functions and events\<close>

text \<open>The test of one connected storage in ``check thresholds''.\<close>

definition threshold_met ::
  "string \<Rightarrow> agent \<Rightarrow> world \<Rightarrow> string \<Rightarrow> string \<Rightarrow> attr_value \<Rightarrow> string \<Rightarrow> error + bool" where
  "threshold_met me self w threshold_type currency attr_value r =
     (case resolve me self w r of
        None \<Rightarrow> Inl KeyError
      | Some storage_agent \<Rightarrow>
          (case map_of (storage_ratios w) (agent_type storage_agent) of
             None \<Rightarrow> Inl KeyError
           | Some ratios \<Rightarrow>
               (case map_of ratios (currency @ ''_ratio'') of
                  None \<Rightarrow> Inl KeyError
                | Some storage_ratio \<Rightarrow>
                    (if threshold_type \<noteq> ''upper'' \<and> threshold_type \<noteq> ''lower'' then Inl KeyError
                     else (case attr_value of
                             Str x \<Rightarrow> Inl TypeError
                           | Num limit \<Rightarrow>
                               Inr (if threshold_type = ''upper'' then storage_ratio > limit
                                    else storage_ratio < limit))))))"

fun any_threshold_met ::
  "string \<Rightarrow> agent \<Rightarrow> world \<Rightarrow> string \<Rightarrow> string \<Rightarrow> attr_value \<Rightarrow> string list \<Rightarrow> error + bool" where
  "any_threshold_met me self w threshold_type currency attr_value [] = Inr False"
| "any_threshold_met me self w threshold_type currency attr_value (r # rs) =
     (case threshold_met me self w threshold_type currency attr_value r of
        Inl e \<Rightarrow> Inl e
      | Inr met \<Rightarrow>
          (if met then Inr True
           else any_threshold_met me self w threshold_type currency attr_value rs))"

text \<open>
  The threshold check of one \<^verbatim>\<open>char_threshold_\<close> attribute: the connected storages of the
  \<^verbatim>\<open>in\<close> side, then those of the \<^verbatim>\<open>out\<close> side.
\<close>

definition check_threshold :: "string \<Rightarrow> agent \<Rightarrow> world \<Rightarrow> string \<Rightarrow> attr_value \<Rightarrow> error + bool" where
  "check_threshold me self w attr attr_value =
     (let parts = split CHR ''_'' attr;
          threshold_type = last (butlast parts);
          currency = last parts;
          side = (\<lambda>d. case map_of (selected_storage self d) currency of
                         None \<Rightarrow> Inr False
                       | Some storages \<Rightarrow>
                           any_threshold_met me self w threshold_type currency attr_value storages)
      in case side In of
           Inl e \<Rightarrow> Inl e
         | Inr met \<Rightarrow> (if met then Inr True else side Out))"

text \<open>
  Modelled from the spec: the module \<^verbatim>\<open>custom_funcs\<close> is missing from the sources. A custom
  behaviour is a named external collaborator that may change the agent and the model; the
  table \<open>cf\<close> of these behaviours is a parameter of the step, and an unknown name raises.
\<close>

type_synonym custom_funcs = "string \<Rightarrow> (string \<Rightarrow> agent \<Rightarrow> world \<Rightarrow> agent \<times> world) option"

definition custom_function ::
  "custom_funcs \<Rightarrow> string \<Rightarrow> agent \<Rightarrow> world \<Rightarrow> attr_value \<Rightarrow> error + (agent \<times> world)" where
  "custom_function cf me self w attr_value =
     (case attr_value of
        Num x \<Rightarrow> Inl TypeError
      | Str name \<Rightarrow>
          (case cf name of
             None \<Rightarrow> Inl MissingAttribute
           | Some f \<Rightarrow> Inr (f me self w)))"

text \<open>
  One turn of the first loop of \<^verbatim>\<open>GeneralAgent.step\<close> over \<^verbatim>\<open>self.attrs\<close>. The flag tells
  that the agent was killed by a threshold and the step has returned.
\<close>

definition step_attr ::
  "custom_funcs \<Rightarrow> string \<Rightarrow> string \<Rightarrow> attr_value \<Rightarrow> agent \<Rightarrow> world
     \<Rightarrow> error + (bool \<times> agent \<times> world)" where
  "step_attr cf me attr attr_value self w =
     (case (if startswith attr ''char_threshold_''
            then check_threshold me self w attr attr_value else Inr False) of
        Inl e \<Rightarrow> Inl e
      | Inr met \<Rightarrow>
          (if met then
             Inr (True, kill (''Threshold '' @ last (split CHR ''_'' attr) @ '' met for ''
                               @ agent_type self @ ''. Killing the agent'') self, w)
           else
             (case (if attr = ''char_custom_function''
                    then custom_function cf me self w attr_value else Inr (self, w)) of
                Inl e \<Rightarrow> Inl e
              | Inr (self1, w1) \<Rightarrow>
                  (case (if startswith attr ''event'' \<and> process_events self1
                         then process_event self1 w1 attr attr_value else Inr (self1, w1)) of
                     Inl e \<Rightarrow> Inl e
                   | Inr (self2, w2) \<Rightarrow> Inr (False, self2, w2)))))"

fun step_attrs ::
  "custom_funcs \<Rightarrow> string \<Rightarrow> (string \<times> attr_value) list \<Rightarrow> agent \<Rightarrow> world
     \<Rightarrow> error + (bool \<times> agent \<times> world)" where
  "step_attrs cf me [] self w = Inr (False, self, w)"
| "step_attrs cf me ((attr, attr_value) # rest) self w =
     (case step_attr cf me attr attr_value self w of
        Inl e \<Rightarrow> Inl e
      | Inr (killed, self', w') \<Rightarrow>
          (if killed then Inr (True, self', w') else step_attrs cf me rest self' w'))"

subsection \<open>Flows\<close>

text \<open>``Calculate target value'': the magnitude of the step value for one instance.\<close>

definition flow_target :: "string \<Rightarrow> agent \<Rightarrow> world \<Rightarrow> string \<Rightarrow> error + (agent \<times> real)" where
  "flow_target me self w attr =
     (case get_step_value me self w attr (py_int (age self)) of
        Inl e \<Rightarrow> Inl e
      | Inr (self1, step_value) \<Rightarrow>
          Inr (self1, step_value * step_variable self1
                        * prod_list (map snd (event_multipliers self1))))"

text \<open>``Calculate available value'': a connection is \<open>(agent, value, capacity)\<close>.\<close>

type_synonym conn = "string \<times> real \<times> real"

definition available_conn :: "string \<Rightarrow> agent \<Rightarrow> world \<Rightarrow> string \<Rightarrow> string \<Rightarrow> error + conn" where
  "available_conn me self w currency r =
     (case resolve me self w r of
        None \<Rightarrow> Inl KeyError
      | Some storage \<Rightarrow>
          (case view storage currency of
             Inl e \<Rightarrow> Inl e
           | Inr currencies \<Rightarrow>
               (case capacity storage currency of
                  None \<Rightarrow> Inl MissingAttribute
                | Some storage_cap \<Rightarrow>
                    Inr (r, sum_list (map snd currencies),
                         storage_cap * real_of_int (amount storage)))))"

fun available_conns ::
  "string \<Rightarrow> agent \<Rightarrow> world \<Rightarrow> string \<Rightarrow> string list \<Rightarrow> error + conn list" where
  "available_conns me self w currency [] = Inr []"
| "available_conns me self w currency (r # rs) =
     (case available_conn me self w currency r of
        Inl e \<Rightarrow> Inl e
      | Inr conn \<Rightarrow>
          (case available_conns me self w currency rs of
             Inl e \<Rightarrow> Inl e
           | Inr conns \<Rightarrow> Inr (conn # conns)))"

text \<open>
  ``Deprive'' (8.2): the flag tells that the whole population died and the step has
  returned; the number is \<^verbatim>\<open>actual_value\<close>. The two quotients under \<^verbatim>\<open>math.floor\<close>
  are float quotients.
\<close>

definition deprive_stage ::
  "string \<Rightarrow> string \<Rightarrow> details \<Rightarrow> bool \<Rightarrow> real \<Rightarrow> real \<Rightarrow> real \<Rightarrow> agent
     \<Rightarrow> error + (bool \<times> agent \<times> real)" where
  "deprive_stage attr currency ad has_deficit available_value step_mag actual_value self =
     (let dv = or_zero (deprive_value ad)
      in if has_deficit \<and> dv > 0 then
           (case float_div available_value step_mag of
              Inl e \<Rightarrow> Inl e
            | Inr satisfiable \<Rightarrow>
                (let n_satisfied = \<lfloor>satisfiable\<rfloor>;
                     actual_value' = real_of_int n_satisfied * step_mag;
                     delta = or_zero (delta_per_step ad)
                 in case deprive self attr of
                      None \<Rightarrow> Inl KeyError
                    | Some budget \<Rightarrow>
                        (case float_div (max budget 0) delta of
                           Inl e \<Rightarrow> Inl e
                         | Inr survivable \<Rightarrow>
                             (let max_survive = \<lfloor>survivable\<rfloor>;
                                  n_deprived = amount self - n_satisfied;
                                  n_survive = min n_deprived max_survive;
                                  n_die = n_deprived - n_survive;
                                  self' = self\<lparr>amount := amount self - n_die,
                                               deprive := (deprive self)(attr \<mapsto>
                                                  budget - delta * real_of_int n_survive)\<rparr>
                              in if amount self' \<le> 0
                                 then Inr (True, kill (''All '' @ agent_type self @ '' died from lack of ''
                                                       @ currency @ ''. Killing the agent'') self',
                                           actual_value')
                                 else Inr (False, self', actual_value')))))
         else if dv > 0 then
           (case deprive self attr of
              None \<Rightarrow> Inl KeyError
            | Some budget \<Rightarrow>
                Inr (False,
                     self\<lparr>deprive := (deprive self)(attr \<mapsto>
                            min (dv * real_of_int (amount self)) (budget + dv))\<rparr>,
                     actual_value))
         else Inr (False, self, actual_value))"

text \<open>\<^verbatim>\<open>storage.increment\<close> through a reference.\<close>

definition increment_ref ::
  "string \<Rightarrow> agent \<Rightarrow> world \<Rightarrow> string \<Rightarrow> string \<Rightarrow> real \<Rightarrow> error + (agent \<times> world \<times> sv)" where
  "increment_ref me self w r view_name a =
     (if r = me then
        (case increment self view_name a of
           Inl e \<Rightarrow> Inl e
         | Inr (self', flow) \<Rightarrow> Inr (self', w, flow))
      else
        (case agents w r of
           None \<Rightarrow> Inl KeyError
         | Some storage \<Rightarrow>
             (case increment storage view_name a of
                Inl e \<Rightarrow> Inl e
              | Inr (storage', flow) \<Rightarrow>
                  Inr (self, w\<lparr>agents := (agents w)(r \<mapsto> storage')\<rparr>, flow))))"

text \<open>``Log exchanged values'': \<^verbatim>\<open>buf[_currency][storage.agent_type] = abs(_amount)\<close>.\<close>

fun log_flow ::
  "direction \<Rightarrow> string \<Rightarrow> sv \<Rightarrow> ((direction \<times> string \<times> string) \<rightharpoonup> real)
     \<Rightarrow> ((direction \<times> string \<times> string) \<rightharpoonup> real)" where
  "log_flow d storage_type [] buf = buf"
| "log_flow d storage_type ((c, a) # flow) buf =
     log_flow d storage_type flow (buf((d, c, storage_type) \<mapsto> \<bar>a\<bar>))"

text \<open>
  One turn of the loop of ``process exchange'' (9); the state is the agent, the model,
  \<^verbatim>\<open>remaining_value\<close> and \<^verbatim>\<open>influx\<close>.
\<close>

definition exchange_conn ::
  "string \<Rightarrow> direction \<Rightarrow> string \<Rightarrow> nat \<Rightarrow> real \<Rightarrow> real \<Rightarrow> conn
     \<Rightarrow> agent \<times> world \<times> real \<times> string list
     \<Rightarrow> error + (agent \<times> world \<times> real \<times> string list)" where
  "exchange_conn me d currency n_conns actual_value value_eps conn st =
     (case st of (self, w, remaining_value, influx) \<Rightarrow>
        (let conn_delta = (case d of
                             In \<Rightarrow> min remaining_value (fst (snd conn))
                           | Out \<Rightarrow> remaining_value / real n_conns)
         in case increment_ref me self w (fst conn) currency
                   (case d of In \<Rightarrow> - conn_delta | Out \<Rightarrow> conn_delta) of
              Inl e \<Rightarrow> Inl e
            | Inr (self1, w1, flow) \<Rightarrow>
                (if actual_value < value_eps
                 then Inr (self1, w1, remaining_value - conn_delta, influx)
                 else
                   (case resolve me self1 w1 (fst conn) of
                      None \<Rightarrow> Inl KeyError
                    | Some storage \<Rightarrow>
                        Inr (self1\<lparr>step_exchange_buffer :=
                                   log_flow d (agent_type storage) flow (step_exchange_buffer self1)\<rparr>,
                             w1, remaining_value - conn_delta,
                             (if d = In then List.insert currency influx else influx))))))"

fun exchange ::
  "string \<Rightarrow> direction \<Rightarrow> string \<Rightarrow> nat \<Rightarrow> real \<Rightarrow> real \<Rightarrow> conn list
     \<Rightarrow> agent \<times> world \<times> real \<times> string list
     \<Rightarrow> error + (agent \<times> world \<times> real \<times> string list)" where
  "exchange me d currency n_conns actual_value value_eps [] st = Inr st"
| "exchange me d currency n_conns actual_value value_eps (conn # conns) st =
     (case exchange_conn me d currency n_conns actual_value value_eps conn st of
        Inl e \<Rightarrow> Inl e
      | Inr st' \<Rightarrow> exchange me d currency n_conns actual_value value_eps conns st')"

text \<open>
  The body of the loop ``iterate through each input and output'' for one currency:
  escape parameters (5), target (6), available value (7), deficit (8) and exchange (9).
\<close>

datatype flow_result = Next | Mandatory_Return | Deprive_Return

definition process_flow ::
  "string \<Rightarrow> real \<Rightarrow> direction \<Rightarrow> string \<Rightarrow> string list \<Rightarrow> agent \<times> world \<times> string list
     \<Rightarrow> error + (flow_result \<times> agent \<times> world \<times> string list)" where
  "process_flow me value_eps d currency selected_storages st =
     (case st of (self, w, influx) \<Rightarrow>
        (let attr = prefix_of d @ ''_'' @ currency
         in case attr_details self attr of
              None \<Rightarrow> Inl KeyError
            | Some ad \<Rightarrow>
                (case map_of (attrs self) attr of
                   None \<Rightarrow> Inl KeyError
                 | Some attr_value \<Rightarrow>
                     (if attr_value = Num 0 then Inr (Next, self, w, influx)
                      else if requires ad \<noteq> [] \<and> list_ex (\<lambda>x. x \<notin> set influx) (requires ad)
                      then Inr (Next, self, w, influx)
                      else
                        (case flow_target me self w attr of
                           Inl e \<Rightarrow> Inl e
                         | Inr (self1, step_mag) \<Rightarrow>
                             (case available_conns me self1 w currency selected_storages of
                                Inl e \<Rightarrow> Inl e
                              | Inr conns \<Rightarrow>
                                  (let target_value = step_mag * real_of_int (amount self1);
                                       available_value = sum_list (map (\<lambda>conn. fst (snd conn)) conns);
                                       has_deficit = (d = In \<and> available_value < target_value);
                                       required = (case is_required ad of None \<Rightarrow> [] | Some x \<Rightarrow> x)
                                   in if has_deficit \<and> required = ''mandatory''
                                      then Inr (Mandatory_Return, self1, w, influx)
                                      else
                                        (case deprive_stage attr currency ad has_deficit available_value
                                                step_mag target_value
                                                (if has_deficit \<and> required = ''desired''
                                                 then self1\<lparr>missing_desired := True\<rparr> else self1) of
                                           Inl e \<Rightarrow> Inl e
                                         | Inr (killed, self2, actual_value) \<Rightarrow>
                                             (if killed then Inr (Deprive_Return, self2, w, influx)
                                              else
                                                (case exchange me d currency (length conns) actual_value
                                                        value_eps conns (self2, w, actual_value, influx) of
                                                   Inl e \<Rightarrow> Inl e
                                                 | Inr (self3, w3, remaining_value, influx3) \<Rightarrow>
                                                     Inr (Next, self3, w3, influx3)))))))))))"

fun process_flows ::
  "string \<Rightarrow> real \<Rightarrow> (direction \<times> string \<times> string list) list \<Rightarrow> agent \<times> world \<times> string list
     \<Rightarrow> error + (flow_result \<times> agent \<times> world \<times> string list)" where
  "process_flows me value_eps [] st = Inr (Next, st)"
| "process_flows me value_eps ((d, currency, selected_storages) # rest) st =
     (case process_flow me value_eps d currency selected_storages st of
        Inl e \<Rightarrow> Inl e
      | Inr (res, st') \<Rightarrow>
          (if res = Next then process_flows me value_eps rest st' else Inr (res, st')))"

text \<open>``Generate random variation'' (4).\<close>

definition generate_step_variable :: "agent \<Rightarrow> world \<Rightarrow> agent \<times> world" where
  "generate_step_variable self w =
     (if step_variation self
      then (self\<lparr>step_variable := step_variable_drawn (random_state w (random_pos w))\<rparr>,
            w\<lparr>random_pos := Suc (random_pos w)\<rparr>)
      else (self, w))"

text \<open>
  \<^verbatim>\<open>GeneralAgent.step\<close>: how the step ended, the agent and the model after it.
\<close>

datatype outcome = Completed | Threshold_Kill | Mandatory_Abort | Deprive_Kill

definition step ::
  "custom_funcs \<Rightarrow> real \<Rightarrow> string \<Rightarrow> agent \<Rightarrow> world \<Rightarrow> error + (outcome \<times> agent \<times> world)" where
  "step cf value_eps me self w =
     (case storage_step self w of
        Inl e \<Rightarrow> Inl e
      | Inr w0 \<Rightarrow>
          (let self0 = self\<lparr>step_exchange_buffer := Map.empty,
                            age := age self + hours_per_step w0\<rparr>
           in case step_attrs cf me (attrs self0) self0 w0 of
                Inl e \<Rightarrow> Inl e
              | Inr (killed, self1, w1) \<Rightarrow>
                  (if killed then Inr (Threshold_Kill, self1, w1)
                   else
                     (case generate_step_variable self1 w1 of (self2, w2) \<Rightarrow>
                        (let self3 = self2\<lparr>missing_desired := False\<rparr>;
                             flows = map (\<lambda>(currency, storages). (In, currency, storages))
                                       (selected_storage self3 In)
                                   @ map (\<lambda>(currency, storages). (Out, currency, storages))
                                       (selected_storage self3 Out)
                         in case process_flows me value_eps flows (self3, w2, []) of
                              Inl e \<Rightarrow> Inl e
                            | Inr (res, self4, w4, influx) \<Rightarrow>
                                Inr (case res of
                                       Next \<Rightarrow> Completed
                                     | Mandatory_Return \<Rightarrow> Mandatory_Abort
                                     | Deprive_Return \<Rightarrow> Deprive_Kill,
                                     self4, w4))))))"

text \<open>The frame condition on the external custom behaviours: they leave the age alone.\<close>

definition keeps_age :: "custom_funcs \<Rightarrow> bool" where
  "keeps_age cf \<longleftrightarrow> (\<forall>name f m a x. cf name = Some f \<longrightarrow> age (fst (f m a x)) = age a)"

text \<open>What a step reports: how it ended and the age of the agent after it.\<close>

definition outcome_and_age :: "error + (outcome \<times> agent \<times> world) \<Rightarrow> (outcome \<times> real) option" where
  "outcome_and_age r = (case r of Inl e \<Rightarrow> None | Inr (out, self, w) \<Rightarrow> Some (out, age self))"

text \<open>The balance of a currency in a storage of the model after a step.\<close>

definition stored_after ::
  "error + (outcome \<times> agent \<times> world) \<Rightarrow> string \<Rightarrow> string \<Rightarrow> real option" where
  "stored_after r ref currency =
     (case r of
        Inl e \<Rightarrow> None
      | Inr (out, self, w) \<Rightarrow>
          (case agents w ref of None \<Rightarrow> None | Some storage \<Rightarrow> balance storage currency))"

section \<open>Example agents\<close>

definition no_details :: details where
  "no_details = \<lparr>criteria_name = None, criteria_limit = [], criteria_value = None,
     criteria_buffer = None, requires = [], is_required = None, deprive_value = None,
     delta_per_step = None, scope = [], probability_per_step = 0, magnitude_value = 0,
     magnitude_variation_distribution = None, duration_value = None,
     duration_variation_distribution = None, duration_delta_per_step = 0\<rparr>"

definition blank_agent :: agent where
  "blank_agent = \<lparr>agent_type = [], amount = 1, currency_dict = Map.empty,
     balance = Map.empty, capacity = Map.empty, active = True, cause_of_death = None,
     age = 0, attrs = [], attr_details = Map.empty, selected_storage = (\<lambda>d. []),
     buffer = Map.empty, deprive = Map.empty, step_values = Map.empty, events = Map.empty,
     event_multipliers = [], process_events = False, step_variation = False,
     step_variable = 1, missing_desired = False, step_exchange_buffer = Map.empty\<rparr>"

text \<open>
  A dehumidifier that takes water vapour from the air only while the vapour ratio of the
  air exceeds 0.02, with a grace buffer of two steps.
\<close>

definition air :: agent where
  "air = blank_agent\<lparr>agent_type := ''air_storage'',
     currency_dict := [''h2o'' \<mapsto> Currency ''atmosphere''],
     balance := [''h2o'' \<mapsto> 5], capacity := [''h2o'' \<mapsto> 100]\<rparr>"

definition dehumidifier :: agent where
  "dehumidifier = blank_agent\<lparr>agent_type := ''dehumidifier'',
     attrs := [(''in_h2o'', Num 7)],
     attr_details := [''in_h2o'' \<mapsto> no_details\<lparr>criteria_name := Some ''h2o_ratio_in'',
        criteria_limit := ''>'', criteria_value := Some (2 / 100), criteria_buffer := Some 2\<rparr>],
     selected_storage := (\<lambda>d. case d of In \<Rightarrow> [(''h2o'', [''air''])] | Out \<Rightarrow> []),
     buffer := [''in_h2o'' \<mapsto> 2],
     step_values := [''in_h2o'' \<mapsto> [7, 8, 9]]\<rparr>"

definition cabin :: world where
  "cabin = \<lparr>agents = [''air'' \<mapsto> air],
     storage_ratios = [(''air_storage'', [(''h2o_ratio'', 5 / 100)])],
     hours_per_step = 1, day_length_hours = 24,
     random_state = (\<lambda>n. \<lparr>instance_variable = 1 / 2, magnitude_variable = 1, duration_variable = 1,
                                step_variable_drawn = 1\<rparr>),
     random_pos = 0\<rparr>"

text \<open>A C3 plant that, at the step looked at, takes up 1 unit of CO2 and gives off 2 of oxygen.\<close>

definition wheat :: agent where
  "wheat = blank_agent\<lparr>agent_type := ''wheat'',
     attrs := [(''in_co2'', Num 1), (''out_o2'', Num 2), (''char_carbon_fixation'', Str ''c3'')],
     step_values := [''in_co2'' \<mapsto> [1, 1], ''out_o2'' \<mapsto> [2, 2]]\<rparr>"

text \<open>
  A crew of three with an individual-scope event (say an illness) that halves a member's
  exchanges for two hours, and two members already affected.
\<close>

definition crew :: agent where
  "crew = blank_agent\<lparr>agent_type := ''human_agent'', amount := 3,
     attrs := [(''event_illness'', Str ''multiplier'')],
     attr_details := [''event_illness'' \<mapsto> no_details\<lparr>scope := ''individual'',
        probability_per_step := 6 / 10, magnitude_value := 1 / 2, duration_value := Some 2,
        duration_delta_per_step := 1\<rparr>],
     events := [''illness'' \<mapsto> [\<lparr>magnitude = 1 / 2, duration = Some 1\<rparr>,
                                  \<lparr>magnitude = 1 / 2, duration = Some 2\<rparr>]],
     event_multipliers := [(''illness'', 2 / 3)], process_events := True\<rparr>"

definition crew_after :: agent where
  "crew_after = crew\<lparr>events := [''illness'' \<mapsto> [\<lparr>magnitude = 1 / 2, duration = Some 1\<rparr>,
                                  \<lparr>magnitude = 1 / 2, duration = Some 2\<rparr>,
                                  \<lparr>magnitude = 1 / 2, duration = Some 2\<rparr>]],
     event_multipliers := [(''illness'', 1 / 2)]\<rparr>"


text \<open>
  A habitat: an air storage, and a crew of four that breathes one unit of oxygen per head
  and hour and dies when the oxygen ratio of the air falls below a threshold.
\<close>

definition habitat_air :: agent where
  "habitat_air = blank_agent\<lparr>agent_type := ''air_storage'',
     currency_dict := [''o2'' \<mapsto> Currency ''atmosphere'', ''co2'' \<mapsto> Currency ''atmosphere''],
     balance := [''o2'' \<mapsto> 5, ''co2'' \<mapsto> 95],
     capacity := [''o2'' \<mapsto> 1000, ''co2'' \<mapsto> 1000],
     attrs := [(''char_capacity_o2'', Num 1000), (''char_capacity_co2'', Num 1000)]\<rparr>"

definition human :: agent where
  "human = blank_agent\<lparr>agent_type := ''human_agent'', amount := 4, age := 10,
     attrs := [(''char_threshold_lower_o2'', Num (8 / 100)), (''in_o2'', Num 1)],
     attr_details := [''in_o2'' \<mapsto> no_details],
     selected_storage := (\<lambda>d. case d of In \<Rightarrow> [(''o2'', [''air''])] | Out \<Rightarrow> []),
     step_values := [''in_o2'' \<mapsto> replicate 24 1]\<rparr>"

definition habitat :: world where
  "habitat = \<lparr>agents = [''air'' \<mapsto> habitat_air],
     storage_ratios = [(''air_storage'', [(''o2_ratio'', 5 / 100), (''co2_ratio'', 95 / 100)])],
     hours_per_step = 1, day_length_hours = 24,
     random_state = (\<lambda>n. \<lparr>instance_variable = 1 / 2, magnitude_variable = 1, duration_variable = 1,
                                step_variable_drawn = 1\<rparr>),
     random_pos = 0\<rparr>"

text \<open>No custom behaviours.\<close>

definition no_custom_funcs :: custom_funcs where
  "no_custom_funcs = (\<lambda>name. None)"

text \<open>The crew with a lower threshold (it survives), and a crew of eight that must have oxygen.\<close>

definition breathing :: agent where
  "breathing = human\<lparr>attrs := [(''char_threshold_lower_o2'', Num (2 / 100)), (''in_o2'', Num 1)]\<rparr>"

definition gasping :: agent where
  "gasping = human\<lparr>amount := 8, attrs := [(''in_o2'', Num 1)],
     attr_details := [''in_o2'' \<mapsto> no_details\<lparr>is_required := Some ''mandatory''\<rparr>]\<rparr>"

text \<open>
  An electrolyser that gives off 100 units of oxygen per step into two empty tanks of
  capacity 1000 each.
\<close>

definition o2_tank_a :: agent where
  "o2_tank_a = blank_agent\<lparr>agent_type := ''o2_tank_a'',
     currency_dict := [''o2'' \<mapsto> Currency ''atmosphere''],
     balance := [''o2'' \<mapsto> 0], capacity := [''o2'' \<mapsto> 1000],
     attrs := [(''char_capacity_o2'', Num 1000)]\<rparr>"

definition o2_tank_b :: agent where
  "o2_tank_b = o2_tank_a\<lparr>agent_type := ''o2_tank_b''\<rparr>"

definition electrolyser :: agent where
  "electrolyser = blank_agent\<lparr>agent_type := ''electrolyser'',
     attrs := [(''out_o2'', Num 100)],
     attr_details := [''out_o2'' \<mapsto> no_details],
     selected_storage := (\<lambda>d. case d of In \<Rightarrow> [] | Out \<Rightarrow> [(''o2'', [''tank_a'', ''tank_b''])]),
     step_values := [''out_o2'' \<mapsto> replicate 24 100]\<rparr>"

definition plant_room :: world where
  "plant_room = habitat\<lparr>agents := [''tank_a'' \<mapsto> o2_tank_a, ''tank_b'' \<mapsto> o2_tank_b],
     storage_ratios := []\<rparr>"


text \<open>
  A plant that, at the step looked at, takes up 6 units of CO2 and gives off 1 unit of
  oxygen and 3 of water vapour.
\<close>

definition rice :: agent where
  "rice = blank_agent\<lparr>agent_type := ''rice'',
     attrs := [(''in_co2'', Num 6), (''out_o2'', Num 1), (''out_h2o'', Num 3)],
     step_values := [''in_co2'' \<mapsto> [6], ''out_o2'' \<mapsto> [1], ''out_h2o'' \<mapsto> [3]]\<rparr>"

section \<open>Properties\<close>

subsection \<open>Views and increments\<close>

lemma update_fresh: "k \<notin> fst ` set al \<Longrightarrow> AList.update k v al = al @ [(k, v)]"
  by (induction al) auto

lemma class_view_distinct:
  "distinct (map fst acc) \<Longrightarrow> distinct (map fst (class_view bal cs acc))"
  by (induction bal cs acc rule: class_view.induct) (auto simp: distinct_update split: option.splits)

lemma set_update_subset: "set (AList.update k v al) \<subseteq> insert (k, v) (set al)"
  by (induction al) auto

lemma class_view_sound:
  "(\<And>c b. (c, b) \<in> set acc \<Longrightarrow> bal c = Some b) \<Longrightarrow>
   (c, b) \<in> set (class_view bal cs acc) \<Longrightarrow> bal c = Some b"
proof (induction bal cs acc rule: class_view.induct)
  case (1 bal acc)
  then show ?case by simp
next
  case (2 bal c' cs acc)
  show ?case
  proof (cases "bal c'")
    case None
    with 2 show ?thesis by simp
  next
    case (Some b')
    have "\<And>x y. (x, y) \<in> set (AList.update c' b' acc) \<Longrightarrow> bal x = Some y"
      using "2.prems"(1) Some set_update_subset [of c' b' acc] by auto
    with 2 Some show ?thesis by simp
  qed
qed

lemma view_members:
  assumes "view s v = Inr ms"
  shows "distinct (map fst ms)" and "\<And>c b. (c, b) \<in> set ms \<Longrightarrow> balance s c = Some b"
proof -
  show "distinct (map fst ms)"
    using assms class_view_distinct [of "[]" "balance s"]
    by (auto simp: view_def split: option.splits currency_data.splits)
  show "\<And>c b. (c, b) \<in> set ms \<Longrightarrow> balance s c = Some b"
    using assms class_view_sound [of "[]" "balance s"]
    by (auto simp: view_def split: option.splits currency_data.splits)
qed

lemma decrement_members_eq:
  "distinct (map fst ms) \<Longrightarrow> (\<And>c b. (c, b) \<in> set ms \<Longrightarrow> bal c = Some b) \<Longrightarrow>
   fst ` set ms \<inter> fst ` set flow = {} \<Longrightarrow>
   decrement_members a (map (\<lambda>(c, b). (c, b / t)) ms) bal flow =
     Inr (\<lambda>c. case map_of ms c of None \<Rightarrow> bal c | Some b \<Rightarrow> Some (max (b + a * (b / t)) 0),
          flow @ map (\<lambda>(c, b). (c, b - max (b + a * (b / t)) 0)) ms)"
proof (induction ms arbitrary: bal flow)
  case Nil
  then show ?case by simp
next
  case (Cons m ms)
  obtain c b where m: "m = (c, b)" by (cases m)
  have bc: "bal c = Some b" using Cons.prems(2) m by simp
  have fresh: "c \<notin> fst ` set flow" "c \<notin> fst ` set ms"
    using Cons.prems(1,3) m by auto
  let ?new = "max (b + a * (b / t)) 0"
  have others: "\<And>c' b'. (c', b') \<in> set ms \<Longrightarrow> (bal(c \<mapsto> ?new)) c' = Some b'"
    using Cons.prems(2) fresh(2) by (auto simp: image_iff)
  have disj: "fst ` set ms \<inter> fst ` set (flow @ [(c, b - ?new)]) = {}"
    using Cons.prems(1,3) m by auto
  have d: "distinct (map fst ms)" using Cons.prems(1) by simp
  have IH: "decrement_members a (map (\<lambda>(c, b). (c, b / t)) ms) (bal(c \<mapsto> ?new)) (flow @ [(c, b - ?new)]) =
     Inr (\<lambda>c'. case map_of ms c' of None \<Rightarrow> (bal(c \<mapsto> ?new)) c' | Some b \<Rightarrow> Some (max (b + a * (b / t)) 0),
          (flow @ [(c, b - ?new)]) @ map (\<lambda>(c, b). (c, b - max (b + a * (b / t)) 0)) ms)"
    by (rule Cons.IH [OF d others disj])
  have nm: "map_of ms c = None" using fresh(2) by (simp add: map_of_eq_None_iff)
  have step: "decrement_members a (map (\<lambda>(c, b). (c, b / t)) (m # ms)) bal flow =
      decrement_members a (map (\<lambda>(c, b). (c, b / t)) ms) (bal(c \<mapsto> ?new)) (flow @ [(c, b - ?new)])"
    unfolding m using bc by (simp add: update_fresh [OF fresh(1)] Let_def)
  show ?case
    unfolding step IH using nm unfolding m by (auto simp: fun_eq_iff split: option.splits)
qed

lemma increment_negative_eq:
  assumes "a < 0" and "view s v = Inr ms"
  shows "increment s v a =
     (if sum_list (map snd ms) \<le> 0 then Inr (s, map (\<lambda>(c, b). (c, 0)) ms)
      else Inr (s\<lparr>balance := (\<lambda>c. case map_of ms c of None \<Rightarrow> balance s c
                                   | Some b \<Rightarrow> Some (max (b + a * (b / sum_list (map snd ms))) 0))\<rparr>,
                map (\<lambda>(c, b). (c, b - max (b + a * (b / sum_list (map snd ms))) 0)) ms))"
proof -
  have d: "distinct (map fst ms)" by (rule view_members(1) [OF assms(2)])
  have b: "\<And>c b. (c, b) \<in> set ms \<Longrightarrow> balance s c = Some b"
    by (rule view_members(2) [OF assms(2)])
  have e: "fst ` set ms \<inter> fst ` set ([] :: (string \<times> real) list) = {}" by simp
  show ?thesis
    using assms by (simp add: increment_def Let_def decrement_members_eq [OF d b e])
qed

lemma increment_frame:
  assumes "increment s v a = Inr (s', flow)"
  shows "\<exists>bal'. s' = s\<lparr>balance := bal'\<rparr>"
proof (cases "a > 0")
  case True
  then show ?thesis using assms
    by (auto simp: increment_def Let_def split: option.splits currency_data.splits)
next
  case False
  note na = this
  show ?thesis
  proof (cases "a < 0")
    case False
    then have "s' = s" using na assms by (simp add: increment_def)
    then show ?thesis by (intro exI [of _ "balance s"]) simp
  next
    case True
    then obtain ms where ms: "view s v = Inr ms"
      using assms by (auto simp: increment_def split: sum.splits)
    show ?thesis
    proof (cases "sum_list (map snd ms) \<le> 0")
      case True
      then have "s' = s" using \<open>a < 0\<close> na assms ms by (simp add: increment_def)
      then show ?thesis by (intro exI [of _ "balance s"]) simp
    next
      case False
      then show ?thesis using \<open>a < 0\<close> na assms ms
        by (auto simp: increment_def Let_def split: sum.splits prod.splits)
    qed
  qed
qed

lemma increment_within_capacity:
  assumes "within_capacity s" and "increment s v a = Inr (s', flow)"
  shows "within_capacity s'"
proof (cases "a > 0")
  case True
  then obtain cls cap b where v: "currency_dict s v = Some (Currency cls)" "capacity s v = Some cap"
      "balance s v = Some b"
    and s': "s' = s\<lparr>balance := (balance s)(v \<mapsto> min (b + a) (cap * real_of_int (amount s)))\<rparr>"
    using assms(2)
    by (auto simp: increment_def Let_def split: option.splits currency_data.splits)
  have old: "0 \<le> b" "b \<le> cap * real_of_int (amount s)"
    using assms(1) v by (auto simp: within_capacity_def)
  have cap0: "0 \<le> cap * real_of_int (amount s)" using old by simp
  show ?thesis
    unfolding within_capacity_def
  proof (intro allI impI)
    fix c b' cap'
    assume h: "balance s' c = Some b' \<and> capacity s' c = Some cap'"
    show "0 \<le> b' \<and> b' \<le> cap' * real_of_int (amount s')"
    proof (cases "c = v")
      case True
      then have "b' = min (b + a) (cap * real_of_int (amount s))" "cap' = cap"
        using h v s' by auto
      then show ?thesis using old cap0 \<open>a > 0\<close> s' by auto
    next
      case False
      then show ?thesis using h s' assms(1) by (auto simp: within_capacity_def)
    qed
  qed
next
  case False
  show ?thesis
  proof (cases "a < 0")
    case False
    with \<open>\<not> a > 0\<close> assms show ?thesis by (simp add: increment_def)
  next
    case True
    then obtain ms where ms: "view s v = Inr ms"
      using assms(2) by (auto simp: increment_def split: sum.splits)
    let ?t = "sum_list (map snd ms)"
    show ?thesis
    proof (cases "?t \<le> 0")
      case True
      with increment_negative_eq [OF \<open>a < 0\<close> ms] assms show ?thesis by simp
    next
      case False
      then have t: "0 < ?t" by simp
      have s': "s' = s\<lparr>balance := (\<lambda>c. case map_of ms c of None \<Rightarrow> balance s c
                                   | Some b \<Rightarrow> Some (max (b + a * (b / ?t)) 0))\<rparr>"
        using increment_negative_eq [OF \<open>a < 0\<close> ms] assms(2) False by simp
      show ?thesis
        unfolding within_capacity_def
      proof (intro allI impI)
        fix c b cap
        assume h: "balance s' c = Some b \<and> capacity s' c = Some cap"
        show "0 \<le> b \<and> b \<le> cap * real_of_int (amount s')"
        proof (cases "map_of ms c")
          case None
          with h s' assms(1) show ?thesis by (auto simp: within_capacity_def)
        next
          case (Some b0)
          then have "(c, b0) \<in> set ms" by (rule map_of_SomeD)
          then have b0: "balance s c = Some b0" by (rule view_members(2) [OF ms])
          have cap: "capacity s c = Some cap" using h s' by simp
          have old: "0 \<le> b0" "b0 \<le> cap * real_of_int (amount s)"
            using assms(1) b0 cap by (auto simp: within_capacity_def)
          have b: "b = max (b0 + a * (b0 / ?t)) 0" using h s' Some by simp
          have "0 \<le> b0 / ?t" using old(1) t by simp
          then have "a * (b0 / ?t) \<le> 0"
            using \<open>a < 0\<close> by (intro mult_nonpos_nonneg) simp_all
          moreover have "amount s' = amount s" using s' by simp
          ultimately show ?thesis using b old by (simp add: max_def)
        qed
      qed
    qed
  qed
qed

text \<open>
  Claim C1. A positive increment stores \<open>min (balance + a) (capacity * amount)\<close>, and the
  claim has the returned dict hold the amount applied: \<open>100\<close> when \<open>150\<close> units go into an
  empty storage of capacity \<open>100\<close>. The code stores the balance \<open>100\<close> and returns the old
  balance minus the new one, \<open>-100\<close>.
\<close>

theorem increment_positive_returns_minus_applied:
  "increment o2_tank ''o2'' 150 =
     Inr (o2_tank\<lparr>balance := [''o2'' \<mapsto> 100]\<rparr>, [(''o2'', - 100)])"
  by (simp add: increment_def o2_tank_def)

lemma class_view_set:
  "(\<And>c b. (c, b) \<in> set acc \<Longrightarrow> bal c = Some b) \<Longrightarrow>
   set (class_view bal cs acc) = set acc \<union> {(c, b). c \<in> set cs \<and> bal c = Some b}"
proof (induction bal cs acc rule: class_view.induct)
  case (1 bal acc)
  then show ?case by simp
next
  case (2 bal c' cs acc)
  show ?case
  proof (cases "bal c'")
    case None
    then have "set (class_view bal (c' # cs) acc) = set (class_view bal cs acc)" by simp
    also have "\<dots> = set acc \<union> {(c, b). c \<in> set cs \<and> bal c = Some b}"
      using "2.IH"(1) [OF None] "2.prems" by blast
    also have "\<dots> = set acc \<union> {(c, b). c \<in> set (c' # cs) \<and> bal c = Some b}"
      using None by auto
    finally show ?thesis .
  next
    case (Some b')
    have upd: "set (AList.update c' b' acc) = insert (c', b') (set acc)"
    proof (cases "c' \<in> fst ` set acc")
      case False
      then show ?thesis by (simp add: update_fresh)
    next
      case True
      then obtain b0 where m: "map_of acc c' = Some b0"
        by (metis domD dom_map_of_conv_image_fst)
      then have "(c', b0) \<in> set acc" by (rule map_of_SomeD)
      then have "b0 = b'" using "2.prems" Some by fastforce
      then have "AList.update c' b' acc = acc" using m by (simp add: update_triv)
      moreover have "(c', b') \<in> set acc" using \<open>(c', b0) \<in> set acc\<close> \<open>b0 = b'\<close> by simp
      ultimately show ?thesis by auto
    qed
    have inv: "\<And>c b. (c, b) \<in> set (AList.update c' b' acc) \<Longrightarrow> bal c = Some b"
      using "2.prems" Some upd by auto
    have "set (class_view bal (c' # cs) acc) = set (class_view bal cs (AList.update c' b' acc))"
      using Some by simp
    also have "\<dots> = set (AList.update c' b' acc) \<union> {(c, b). c \<in> set cs \<and> bal c = Some b}"
      using "2.IH"(2) [OF Some] inv by blast
    also have "\<dots> = set acc \<union> {(c, b). c \<in> set (c' # cs) \<and> bal c = Some b}"
      using Some upd by auto
    finally show ?thesis .
  qed
qed

text \<open>
  Claim C2. For \<open>a < 0\<close>, a view that names a currency held by the storage has that
  currency as its only member, and a view that names a currency class has as members the
  currencies of the class that the storage holds, each once and each with its current
  balance. When the total view balance is not positive, the storage is unchanged and every
  member gets the delta \<open>0\<close>; otherwise every member \<open>c\<close> with balance \<open>b\<close> loses its
  share \<open>a * (b / total)\<close> of the decrement (all of it for a single currency), floored at
  \<open>0\<close>, no other balance changes, and the returned dict holds the amount removed from
  each member.
\<close>

theorem increment_negative_proportional:
  assumes "a < 0"
  shows "(\<forall>cls b. currency_dict s v = Some (Currency cls) \<and> balance s v = Some b \<longrightarrow>
            view s v = Inr [(v, b)]
            \<and> increment s v a =
                (if b \<le> 0 then Inr (s, [(v, 0)])
                 else Inr (s\<lparr>balance := (balance s)(v \<mapsto> max (b + a) 0)\<rparr>,
                           [(v, b - max (b + a) 0)])))
       \<and> (\<forall>cs. currency_dict s v = Some (Currency_Class cs) \<longrightarrow>
            view s v = Inr (class_view (balance s) cs [])
            \<and> distinct (map fst (class_view (balance s) cs []))
            \<and> set (class_view (balance s) cs []) = {(c, b). c \<in> set cs \<and> balance s c = Some b}
            \<and> increment s v a =
                (let members = class_view (balance s) cs [];
                     total = sum_list (map snd members)
                 in if total \<le> 0 then Inr (s, map (\<lambda>(c, b). (c, 0)) members)
                    else Inr (s\<lparr>balance := (\<lambda>c. case map_of members c of
                                                  None \<Rightarrow> balance s c
                                                | Some b \<Rightarrow> Some (max (b + a * (b / total)) 0))\<rparr>,
                              map (\<lambda>(c, b). (c, b - max (b + a * (b / total)) 0)) members)))"
proof (intro conjI allI impI)
  fix cls b
  assume h: "currency_dict s v = Some (Currency cls) \<and> balance s v = Some b"
  show "view s v = Inr [(v, b)]" using h by (simp add: view_def)
  then have e: "increment s v a =
     (if sum_list (map snd [(v, b)]) \<le> 0 then Inr (s, map (\<lambda>(c, b). (c, 0)) [(v, b)])
      else Inr (s\<lparr>balance := (\<lambda>c. case map_of [(v, b)] c of None \<Rightarrow> balance s c
                                   | Some b' \<Rightarrow> Some (max (b' + a * (b' / sum_list (map snd [(v, b)]))) 0))\<rparr>,
                map (\<lambda>(c, b'). (c, b' - max (b' + a * (b' / sum_list (map snd [(v, b)]))) 0)) [(v, b)]))"
    by (rule increment_negative_eq [OF assms])
  show "increment s v a =
                (if b \<le> 0 then Inr (s, [(v, 0)])
                 else Inr (s\<lparr>balance := (balance s)(v \<mapsto> max (b + a) 0)\<rparr>,
                           [(v, b - max (b + a) 0)]))"
  proof (cases "b \<le> 0")
    case True
    then show ?thesis using e by simp
  next
    case False
    have F: "(\<lambda>c. case map_of [(v, b)] c of None \<Rightarrow> balance s c
                                   | Some b' \<Rightarrow> Some (max (b' + a * (b' / sum_list (map snd [(v, b)]))) 0))
          = (balance s)(v \<mapsto> max (b + a) 0)"
      using False by (auto simp: fun_eq_iff)
    show ?thesis unfolding e F using False by simp
  qed
next
  fix cs
  assume h: "currency_dict s v = Some (Currency_Class cs)"
  show v: "view s v = Inr (class_view (balance s) cs [])" using h by (simp add: view_def)
  show "distinct (map fst (class_view (balance s) cs []))"
    by (rule class_view_distinct) simp
  show "set (class_view (balance s) cs []) = {(c, b). c \<in> set cs \<and> balance s c = Some b}"
    using class_view_set [of "[]" "balance s" cs] by simp
  show "increment s v a =
                (let members = class_view (balance s) cs [];
                     total = sum_list (map snd members)
                 in if total \<le> 0 then Inr (s, map (\<lambda>(c, b). (c, 0)) members)
                    else Inr (s\<lparr>balance := (\<lambda>c. case map_of members c of
                                                  None \<Rightarrow> balance s c
                                                | Some b \<Rightarrow> Some (max (b + a * (b / total)) 0))\<rparr>,
                              map (\<lambda>(c, b). (c, b - max (b + a * (b / total)) 0)) members))"
    unfolding Let_def by (rule increment_negative_eq [OF assms v])
qed

text \<open>
  The water class with potable 30 and grey 10, decremented by 20: 15 and 5 are removed.
  The single currency grey, decremented by 20: its 10 units are removed.
\<close>

theorem increment_negative_proportional_witness:
  "(- 20 :: real) < 0
   \<and> currency_dict water_tank ''water'' = Some (Currency_Class [''potable'', ''grey''])
   \<and> view water_tank ''water'' = Inr [(''potable'', 30), (''grey'', 10)]
   \<and> increment water_tank ''water'' (- 20) =
       Inr (water_tank\<lparr>balance := [''potable'' \<mapsto> 15, ''grey'' \<mapsto> 5]\<rparr>,
            [(''potable'', 15), (''grey'', 5)])
   \<and> currency_dict water_tank ''grey'' = Some (Currency ''water'')
   \<and> balance water_tank ''grey'' = Some 10
   \<and> view water_tank ''grey'' = Inr [(''grey'', 10)]
   \<and> increment water_tank ''grey'' (- 20) =
       Inr (water_tank\<lparr>balance := [''potable'' \<mapsto> 30, ''grey'' \<mapsto> 0]\<rparr>, [(''grey'', 10)])"
proof -
  have a: "(- 20 :: real) < 0" by simp
  have w: "currency_dict water_tank ''water'' = Some (Currency_Class [''potable'', ''grey''])"
    by (simp add: water_tank_def)
  have g: "currency_dict water_tank ''grey'' = Some (Currency ''water'')"
    "balance water_tank ''grey'' = Some 10"
    by (simp_all add: water_tank_def)
  have cv: "class_view (balance water_tank) [''potable'', ''grey''] [] = [(''potable'', 30), (''grey'', 10)]"
    by (simp add: water_tank_def)
  note t = increment_negative_proportional [OF a, of water_tank]
  note tw = t [of "''water''", THEN conjunct2, THEN spec, THEN mp, OF w]
  note tg = t [of "''grey''", THEN conjunct1, THEN spec, THEN spec, THEN mp, OF conjI [OF g]]
  note tw' = tw [unfolded cv]
  have b: "(\<lambda>c. case map_of [(''potable'', 30), (''grey'', 10 :: real)] c of
                 None \<Rightarrow> balance water_tank c
               | Some b \<Rightarrow> Some (max (b + - 20 * (b / sum_list (map snd [(''potable'', 30), (''grey'', 10 :: real)]))) 0))
           = [''potable'' \<mapsto> 15, ''grey'' \<mapsto> 5]"
    by (auto simp: fun_eq_iff water_tank_def)
  have b2: "(balance water_tank)(''grey'' \<mapsto> max (10 + - 20) 0) = [''potable'' \<mapsto> 30, ''grey'' \<mapsto> 0]"
    by (auto simp: fun_eq_iff water_tank_def)
  have 1: "view water_tank ''water'' = Inr [(''potable'', 30), (''grey'', 10)]"
    by (rule tw' [THEN conjunct1])
  have 2: "increment water_tank ''water'' (- 20) =
       Inr (water_tank\<lparr>balance := [''potable'' \<mapsto> 15, ''grey'' \<mapsto> 5]\<rparr>,
            [(''potable'', 15), (''grey'', 5)])"
    using tw' [THEN conjunct2, THEN conjunct2, THEN conjunct2, unfolded Let_def b] by simp
  have 3: "view water_tank ''grey'' = Inr [(''grey'', 10)]" by (rule tg [THEN conjunct1])
  have 4: "increment water_tank ''grey'' (- 20) =
       Inr (water_tank\<lparr>balance := [''potable'' \<mapsto> 30, ''grey'' \<mapsto> 0]\<rparr>, [(''grey'', 10)])"
    using tg [THEN conjunct2, unfolded b2] by simp
  show ?thesis using a w g 1 2 3 4 by blast
qed

text \<open>
  Claim C3. If \<open>0 \<le> balance[c] \<le> capacity[c] * amount\<close> holds for every currency with a
  declared capacity, it holds again after any finite sequence of calls of \<^verbatim>\<open>increment\<close>,
  whatever the views and the signs of the amounts.
\<close>

theorem increments_preserve_bounds:
  "within_capacity s \<Longrightarrow> within_capacity (increments s calls)"
proof (induction calls arbitrary: s)
  case Nil
  then show ?case by simp
next
  case (Cons call calls)
  obtain v a where call: "call = (v, a)" by (cases call)
  show ?case
  proof (cases "increment s v a")
    case (Inl e)
    have "increments s (call # calls) = increments s calls"
      unfolding call using Inl by simp
    then show ?thesis using Cons.IH [OF Cons.prems] by simp
  next
    case (Inr r)
    obtain s' flow where r: "r = (s', flow)" by (cases r)
    have eq: "increment s v a = Inr (s', flow)" using Inr r by simp
    have "within_capacity s'" by (rule increment_within_capacity [OF Cons.prems eq])
    then have "within_capacity (increments s' calls)" by (rule Cons.IH)
    moreover have "increments s (call # calls) = increments s' calls"
      unfolding call using eq by simp
    ultimately show ?thesis by simp
  qed
qed

text \<open>A run on the oxygen tank: an overfull increment, a decrement, a no-op and a failing call.\<close>

theorem increments_preserve_bounds_witness:
  "within_capacity o2_tank
   \<and> within_capacity (increments o2_tank [(''o2'', 150), (''o2'', - 30), (''o2'', 0), (''h2'', 1)])
   \<and> balance (increments o2_tank [(''o2'', 150), (''o2'', - 30), (''o2'', 0), (''h2'', 1)]) ''o2'' = Some 70"
proof -
  have w: "within_capacity o2_tank"
    by (auto simp: within_capacity_def o2_tank_def split: if_splits)
  have "balance (increments o2_tank [(''o2'', 150), (''o2'', - 30), (''o2'', 0), (''h2'', 1)]) ''o2'' = Some 70"
    by (simp add: increment_def view_def o2_tank_def)
  with w increments_preserve_bounds [OF w, of "[(''o2'', 150), (''o2'', - 30), (''o2'', 0), (''h2'', 1)]"]
  show ?thesis by blast
qed

subsection \<open>The criteria check and the curve lookup\<close>

lemmas ex_defs = dehumidifier_def cabin_def air_def blank_agent_def no_details_def

text \<open>
  Claim C5, as stated, has a passing comparison leave the step value unchanged and a failing
  one consume the grace buffer. In the code it is the passing comparison that consumes the
  buffer: with the vapour ratio 0.05 above the limit 0.02 and two units of buffer left, the
  dehumidifier gets the step value \<open>0\<close> instead of the curve value \<open>7\<close>, and one unit of
  buffer is gone.
\<close>

theorem passing_comparison_consumes_buffer:
  "criteria_source ''dehumidifier'' dehumidifier cabin ''h2o_ratio_in'' = Inr (5 / 100)
   \<and> (5 / 100 :: real) > 2 / 100
   \<and> return_step_value dehumidifier cabin ''in_h2o'' 0 = Inr (dehumidifier, 7)
   \<and> get_step_value ''dehumidifier'' dehumidifier cabin ''in_h2o'' 0 =
        Inr (dehumidifier\<lparr>buffer := [''in_h2o'' \<mapsto> 1]\<rparr>, 0)"
  by (simp add: get_step_value_def criteria_source_def get_storage_ratio_def split_def resolve_def
      return_step_value_def lookup_step_value_def getitem_def opp_def or_zero_def ex_defs)

text \<open>
  Claim C5, amended. For an attribute with a criteria whose source and comparison resolve:
  a failing comparison always suppresses the flow (step value \<open>0\<close>) and, when a buffer is
  configured, refills it to its configured size; a passing comparison consumes one unit of
  the buffer and suppresses the flow while a buffer is configured and some of it is left,
  and otherwise passes the curve value through with the agent unchanged.
\<close>

theorem criteria_suppression:
  assumes "attr_details self attr = Some ad"
    and "criteria_name ad = Some cr_name" and "cr_name \<noteq> []"
    and "criteria_source me self w cr_name = Inr source"
    and "opp (criteria_limit ad) = Some cmp"
  shows "(\<not> cmp source (or_zero (criteria_value ad)) \<longrightarrow>
            get_step_value me self w attr step_num =
              Inr (if or_zero (criteria_buffer ad) > 0
                   then self\<lparr>buffer := (buffer self)(attr \<mapsto> or_zero (criteria_buffer ad))\<rparr>
                   else self, 0))
       \<and> (cmp source (or_zero (criteria_value ad)) \<and> or_zero (criteria_buffer ad) > 0
            \<and> or_zero (buffer self attr) > 0 \<longrightarrow>
            get_step_value me self w attr step_num =
              Inr (self\<lparr>buffer := (buffer self)(attr \<mapsto> or_zero (buffer self attr) - 1)\<rparr>, 0))
       \<and> (cmp source (or_zero (criteria_value ad))
            \<and> \<not> (or_zero (criteria_buffer ad) > 0 \<and> or_zero (buffer self attr) > 0) \<longrightarrow>
            get_step_value me self w attr step_num = return_step_value self w attr step_num)"
  using assms by (simp add: get_step_value_def Let_def)

text \<open>The failing comparison: the ratio 0.01 is below the limit, the empty buffer is refilled.\<close>

theorem criteria_suppression_witness:
  "attr_details dehumidifier ''in_h2o'' = Some (no_details\<lparr>criteria_name := Some ''h2o_ratio_in'',
        criteria_limit := ''>'', criteria_value := Some (2 / 100), criteria_buffer := Some 2\<rparr>)
   \<and> criteria_source ''dehumidifier'' dehumidifier (cabin\<lparr>storage_ratios := [(''air_storage'', [(''h2o_ratio'', 1 / 100)])]\<rparr>) ''h2o_ratio_in'' = Inr (1 / 100)
   \<and> get_step_value ''dehumidifier'' (dehumidifier\<lparr>buffer := [''in_h2o'' \<mapsto> 0]\<rparr>)
         (cabin\<lparr>storage_ratios := [(''air_storage'', [(''h2o_ratio'', 1 / 100)])]\<rparr>) ''in_h2o'' 0 =
       Inr (dehumidifier\<lparr>buffer := [''in_h2o'' \<mapsto> 2]\<rparr>, 0)"
proof -
  let ?ad = "no_details\<lparr>criteria_name := Some ''h2o_ratio_in'',
        criteria_limit := ''>'', criteria_value := Some (2 / 100), criteria_buffer := Some 2\<rparr>"
  let ?w = "cabin\<lparr>storage_ratios := [(''air_storage'', [(''h2o_ratio'', 1 / 100)])]\<rparr>"
  let ?self = "dehumidifier\<lparr>buffer := [''in_h2o'' \<mapsto> 0]\<rparr>"
  have a: "attr_details ?self ''in_h2o'' = Some ?ad" by (simp add: ex_defs)
  have a': "attr_details dehumidifier ''in_h2o'' = Some ?ad" by (simp add: ex_defs)
  have n: "criteria_name ?ad = Some ''h2o_ratio_in''" "''h2o_ratio_in'' \<noteq> []" by simp_all
  have s: "criteria_source ''dehumidifier'' ?self ?w ''h2o_ratio_in'' = Inr (1 / 100)"
    by (simp add: criteria_source_def get_storage_ratio_def split_def resolve_def ex_defs)
  have s': "criteria_source ''dehumidifier'' dehumidifier ?w ''h2o_ratio_in'' = Inr (1 / 100)"
    by (simp add: criteria_source_def get_storage_ratio_def split_def resolve_def ex_defs)
  have c: "opp (criteria_limit ?ad) = Some (\<lambda>x y. x > y)" by (simp add: opp_def)
  have "get_step_value ''dehumidifier'' ?self ?w ''in_h2o'' 0 = Inr (dehumidifier\<lparr>buffer := [''in_h2o'' \<mapsto> 2]\<rparr>, 0)"
    using criteria_suppression [OF a n s c, of 0] by (simp add: or_zero_def ex_defs)
  with a' s' show ?thesis by simp
qed

text \<open>
  Claim C10, as stated, has the lookup return the entry at the step index modulo the day
  length whenever the step index is past the end of the sequence, never failing. With a
  sequence of three values and a day of 24 hours, step 27 wraps to index 3, which is past
  the end again, and the lookup raises.
\<close>

theorem short_sequence_lookup_fails:
  "step_values dehumidifier ''in_h2o'' = Some [7, 8, 9]
   \<and> int (length [7, 8, 9 :: real]) \<le> 27
   \<and> py_int (day_length_hours cabin) = 24
   \<and> lookup_step_value dehumidifier cabin ''in_h2o'' 27 = Inl IndexError
   \<and> criteria_name no_details = None
   \<and> get_step_value ''dehumidifier'' (dehumidifier\<lparr>attr_details := [''in_h2o'' \<mapsto> no_details]\<rparr>)
         cabin ''in_h2o'' 27 = Inl IndexError"
  by (simp add: get_step_value_def return_step_value_def lookup_step_value_def getitem_def
      py_int_def ex_defs)

text \<open>
  Claim C10, amended. When the step index is at least the length of the precomputed
  sequence, the lookup reads the sequence at the step index modulo
  \<^verbatim>\<open>int(day_length_hours)\<close>: for a positive day length it returns that entry when the
  wrapped index lies inside the sequence and raises an index error when it does not
  (nothing is clamped), a day length of zero raises a division by zero, and a negative
  one indexes with the non-positive remainder. \<^verbatim>\<open>_get_step_value\<close> returns what the
  lookup gives for an attribute without criteria.
\<close>

theorem step_value_wraps:
  assumes "step_values self attr = Some values"
    and "int (length values) \<le> step_num"
  shows "lookup_step_value self w attr step_num =
           (if py_int (day_length_hours w) = 0 then Inl ZeroDivisionError
            else if 0 < py_int (day_length_hours w) then
              (if step_num mod py_int (day_length_hours w) < int (length values)
               then Inr (values ! nat (step_num mod py_int (day_length_hours w)))
               else Inl IndexError)
            else getitem values (step_num mod py_int (day_length_hours w)))
       \<and> (\<forall>ad. attr_details self attr = Some ad \<and> criteria_name ad = None \<longrightarrow>
             get_step_value me self w attr step_num =
               (case lookup_step_value self w attr step_num of
                  Inl e \<Rightarrow> Inl e
                | Inr agent_value \<Rightarrow> Inr (self, agent_value)))"
proof (intro conjI allI impI)
  let ?d = "py_int (day_length_hours w)"
  show "lookup_step_value self w attr step_num =
           (if ?d = 0 then Inl ZeroDivisionError
            else if 0 < ?d then
              (if step_num mod ?d < int (length values)
               then Inr (values ! nat (step_num mod ?d))
               else Inl IndexError)
            else getitem values (step_num mod ?d))"
  proof (cases "0 < ?d")
    case True
    then have nn: "0 \<le> step_num mod ?d" by simp
    then have "getitem values (step_num mod ?d) =
       (if step_num mod ?d < int (length values)
        then Inr (values ! nat (step_num mod ?d)) else Inl IndexError)"
      by (simp add: getitem_def)
    then show ?thesis using True assms by (simp add: lookup_step_value_def)
  next
    case False
    then show ?thesis using assms by (simp add: lookup_step_value_def)
  qed
next
  fix ad
  assume "attr_details self attr = Some ad \<and> criteria_name ad = None"
  then show "get_step_value me self w attr step_num =
               (case lookup_step_value self w attr step_num of
                  Inl e \<Rightarrow> Inl e
                | Inr agent_value \<Rightarrow> Inr (self, agent_value))"
    by (simp add: get_step_value_def return_step_value_def)
qed

text \<open>A sequence of three values and a day of 24 hours: step 26 reads index 2.\<close>

theorem step_value_wraps_witness:
  "step_values (dehumidifier\<lparr>attr_details := [''in_h2o'' \<mapsto> no_details]\<rparr>) ''in_h2o'' = Some [7, 8, 9]
   \<and> int (length [7, 8, 9 :: real]) \<le> 26
   \<and> attr_details (dehumidifier\<lparr>attr_details := [''in_h2o'' \<mapsto> no_details]\<rparr>) ''in_h2o'' = Some no_details
   \<and> criteria_name no_details = None
   \<and> lookup_step_value (dehumidifier\<lparr>attr_details := [''in_h2o'' \<mapsto> no_details]\<rparr>) cabin ''in_h2o'' 26 = Inr 9
   \<and> get_step_value ''dehumidifier'' (dehumidifier\<lparr>attr_details := [''in_h2o'' \<mapsto> no_details]\<rparr>) cabin ''in_h2o'' 26 =
        Inr (dehumidifier\<lparr>attr_details := [''in_h2o'' \<mapsto> no_details]\<rparr>, 9)"
proof -
  let ?self = "dehumidifier\<lparr>attr_details := [''in_h2o'' \<mapsto> no_details]\<rparr>"
  have d: "py_int (day_length_hours cabin) = 24" by (simp add: py_int_def cabin_def)
  have 1: "step_values ?self ''in_h2o'' = Some [7, 8, 9]" by (simp add: ex_defs)
  have 2: "int (length [7, 8, 9 :: real]) \<le> 26" by simp
  have 5: "attr_details ?self ''in_h2o'' = Some no_details" by (simp add: ex_defs)
  have 6: "criteria_name no_details = None" by (simp add: no_details_def)
  note t = step_value_wraps [OF 1 2, of cabin "''dehumidifier''"]
  have l: "lookup_step_value ?self cabin ''in_h2o'' 26 = Inr 9"
    using t [THEN conjunct1] by (simp add: d numeral_2_eq_2)
  have g: "get_step_value ''dehumidifier'' ?self cabin ''in_h2o'' 26 = Inr (?self, 9)"
    using t [THEN conjunct2, THEN spec, THEN mp, OF conjI [OF 5 6]] l by simp
  show ?thesis using 1 2 5 6 l g by blast
qed

subsection \<open>The CO2 scale\<close>

lemma sum_list_corrected:
  "sum_list (map snd (map (\<lambda>(c, v). (c, v + (v / n) * e)) (xs :: (string \<times> real) list))) =
     sum_list (map snd xs) + (sum_list (map snd xs) / n) * e"
  by (induction xs) (auto simp: algebra_simps add_divide_distrib)

text \<open>
  Claim C7, as stated, has the adjusted outputs sum to the adjusted inputs after every
  correction. The correction only runs when the inputs exceed the outputs by more than
  \<^verbatim>\<open>value_eps\<close>: at 350 ppm (both factors are \<open>1\<close>) a plant with 1 unit of CO2 in and
  2 units of oxygen out keeps the sums \<open>1\<close> and \<open>2\<close>, and both scale factors are \<open>1\<close>.
\<close>

theorem co2_scale_outputs_below_inputs_uncorrected:
  "co2_response (Some ''c3'') (350 / 1000000) = (1, 1)
   \<and> adjust_step_values (agent_type wheat) (step_values wheat) 1 1 1 (map fst (attrs wheat)) ([], [], [], [])
       = Inr ([(''co2'', 1)], [(''o2'', 2)], [(''co2'', 1)], [(''o2'', 2)])
   \<and> remove_error (1 / 10 ^ 12) [(''co2'', 1)] [(''o2'', 2)] = Inr [(''o2'', 2)]
   \<and> sum_list (map snd [(''o2'', 2 :: real)]) \<noteq> sum_list (map snd [(''co2'', 1 :: real)])
   \<and> calculate_co2_scale wheat 1 1 1 (1 / 10 ^ 12) = Inr [(''in_co2'', 1), (''out_o2'', 1)]"
  by (simp add: co2_response_def interp_te_def calculate_co2_scale_def adjust_attr_def
      getitem_def remove_error_def wheat_def blank_agent_def)

text \<open>
  Claim C7, amended. After the CO2-uptake and transpiration-efficiency adjustments: when
  the adjusted inputs exceed the adjusted outputs by more than \<^verbatim>\<open>value_eps\<close> and the
  adjusted outputs do not sum to zero, every adjusted output \<open>v\<close> is raised by its share
  \<open>v / net_outputs\<close> of the imbalance, and the sum of the outputs then equals the sum of
  the adjusted inputs (in exact arithmetic); when the outputs sum to zero there is nothing
  to raise (no outputs) or the result is not a finite number; when the imbalance is at
  most \<^verbatim>\<open>value_eps\<close>, in particular when the outputs exceed the inputs, the adjusted
  outputs are left as they are.
\<close>

theorem co2_scale_conserves_mass:
  assumes "adjust_step_values (agent_type self) (step_values self) step_num cu te
             (map fst (attrs self)) ([], [], [], []) = Inr (base_in, base_out, adj_in, adj_out)"
  shows "(sum_list (map snd adj_in) - sum_list (map snd adj_out) > value_eps
            \<and> sum_list (map snd adj_out) \<noteq> 0 \<longrightarrow>
          remove_error value_eps adj_in adj_out =
            Inr (map (\<lambda>(currency, v).
                        (currency, v + v / sum_list (map snd adj_out)
                                       * (sum_list (map snd adj_in) - sum_list (map snd adj_out))))
                     adj_out)
          \<and> sum_list (map snd (map (\<lambda>(currency, v).
                        (currency, v + v / sum_list (map snd adj_out)
                                       * (sum_list (map snd adj_in) - sum_list (map snd adj_out))))
                     adj_out)) = sum_list (map snd adj_in))
       \<and> (sum_list (map snd adj_in) - sum_list (map snd adj_out) > value_eps
            \<and> sum_list (map snd adj_out) = 0 \<longrightarrow>
          remove_error value_eps adj_in adj_out = (if adj_out = [] then Inr [] else Inl NonFinite))
       \<and> (\<not> sum_list (map snd adj_in) - sum_list (map snd adj_out) > value_eps \<longrightarrow>
            remove_error value_eps adj_in adj_out = Inr adj_out)"
proof (intro conjI impI)
  assume h: "sum_list (map snd adj_in) - sum_list (map snd adj_out) > value_eps
            \<and> sum_list (map snd adj_out) \<noteq> 0"
  let ?n = "sum_list (map snd adj_out)"
  let ?e = "sum_list (map snd adj_in) - ?n"
  let ?out = "map (\<lambda>(c, v). (c, v + (v / ?n) * ?e)) adj_out"
  show "remove_error value_eps adj_in adj_out = Inr ?out"
    using h by (simp add: remove_error_def Let_def)
  have "sum_list (map snd ?out) = ?n + (?n / ?n) * ?e" by (rule sum_list_corrected)
  also have "\<dots> = sum_list (map snd adj_in)" using h by simp
  finally show "sum_list (map snd ?out) = sum_list (map snd adj_in)" .
next
  assume "sum_list (map snd adj_in) - sum_list (map snd adj_out) > value_eps
            \<and> sum_list (map snd adj_out) = 0"
  then show "remove_error value_eps adj_in adj_out = (if adj_out = [] then Inr [] else Inl NonFinite)"
    by (simp add: remove_error_def Let_def)
next
  assume "\<not> sum_list (map snd adj_in) - sum_list (map snd adj_out) > value_eps"
  then show "remove_error value_eps adj_in adj_out = Inr adj_out"
    by (simp add: remove_error_def Let_def)
qed

text \<open>
  Six units of CO2 in, one of oxygen and three of water vapour out: the imbalance of two
  goes to the outputs in the ratio 1 to 3.
\<close>

theorem co2_scale_conserves_mass_witness:
  "adjust_step_values (agent_type rice) (step_values rice) 0 1 1 (map fst (attrs rice)) ([], [], [], [])
     = Inr ([(''co2'', 6)], [(''o2'', 1), (''h2o'', 3)], [(''co2'', 6)], [(''o2'', 1), (''h2o'', 3)])
   \<and> sum_list (map snd [(''co2'', 6 :: real)]) - sum_list (map snd [(''o2'', 1 :: real), (''h2o'', 3)])
       > 1 / 10 ^ 12
   \<and> sum_list (map snd [(''o2'', 1 :: real), (''h2o'', 3)]) \<noteq> 0
   \<and> remove_error (1 / 10 ^ 12) [(''co2'', 6)] [(''o2'', 1), (''h2o'', 3)]
       = Inr [(''o2'', 3 / 2), (''h2o'', 9 / 2)]
   \<and> sum_list (map snd [(''o2'', 3 / 2 :: real), (''h2o'', 9 / 2)]) = sum_list (map snd [(''co2'', 6 :: real)])"
proof -
  have a: "adjust_step_values (agent_type rice) (step_values rice) 0 1 1 (map fst (attrs rice))
       ([], [], [], [])
     = Inr ([(''co2'', 6)], [(''o2'', 1), (''h2o'', 3)], [(''co2'', 6)], [(''o2'', 1), (''h2o'', 3)])"
    by (simp add: adjust_attr_def getitem_def rice_def blank_agent_def)
  have h: "sum_list (map snd [(''co2'', 6 :: real)]) - sum_list (map snd [(''o2'', 1 :: real), (''h2o'', 3)])
       > 1 / 10 ^ 12 \<and> sum_list (map snd [(''o2'', 1 :: real), (''h2o'', 3)]) \<noteq> 0"
    by simp
  note t = co2_scale_conserves_mass [OF a, of "1 / 10 ^ 12", THEN conjunct1, THEN mp, OF h]
  have r: "remove_error (1 / 10 ^ 12) [(''co2'', 6)] [(''o2'', 1), (''h2o'', 3)]
       = Inr [(''o2'', 3 / 2), (''h2o'', 9 / 2)]"
    using t [THEN conjunct1] by simp
  have s: "sum_list (map snd [(''o2'', 3 / 2 :: real), (''h2o'', 9 / 2)]) = sum_list (map snd [(''co2'', 6 :: real)])"
    using t [THEN conjunct2] by simp
  show ?thesis using a h r s by blast
qed

subsection \<open>Events\<close>

lemma roll_slot_props:
  assumes "roll_slot av ad et r (s, xs) = (s', ys)"
  shows "amount s' = amount s" "events s' = events s"
    "event_multipliers s' = event_multipliers s" "age s' = age s"
    "length xs \<le> length ys" "length ys \<le> Suc (length xs)"
  using assms by (auto simp: roll_slot_def kill_def split: if_splits)

lemma roll_slots_props:
  "roll_slots n av ad et rs pos (s, xs) = (s', ys) \<Longrightarrow>
     amount s' = amount s \<and> events s' = events s
     \<and> event_multipliers s' = event_multipliers s \<and> age s' = age s
     \<and> length xs \<le> length ys \<and> length ys \<le> length xs + n"
proof (induction n arbitrary: pos s xs)
  case 0
  then show ?case by simp
next
  case (Suc n)
  obtain s1 xs1 where one: "roll_slot av ad et (rs pos) (s, xs) = (s1, xs1)"
    by (cases "roll_slot av ad et (rs pos) (s, xs)")
  have rest: "roll_slots n av ad et rs (Suc pos) (s1, xs1) = (s', ys)"
    using Suc.prems one by simp
  note p = roll_slot_props [OF one]
  note q = Suc.IH [OF rest]
  show ?case using p q by simp
qed

lemma slice_to_length: "length (slice_to n xs) \<le> length xs"
  by (simp add: slice_to_def)

lemma process_event_cases:
  assumes "process_event self w attr attr_value = Inr (self', w')"
    and "split_first CHR ''_'' [] attr = Some (p, event_type)"
    and "attr_details self attr = Some ad"
  obtains self1 instances2 instances3 n where
    "length instances2 \<le> instance_count self event_type"
    "int (length instances2) \<le> max 0 (amount self) \<or> amount self < 0"
    "roll_slots (nat ((if scope ad = ''group'' then 1 else amount self) - int (length instances2)))
       attr_value ad event_type (random_state w) (random_pos w) (self, instances2) = (self1, instances3)"
    "update_event_records event_type (if scope ad = ''group'' then 1 else amount self) instances3 self1
       = Inr self'"
proof -
  define instances1 where "instances1 = filter unexpired (map (age_instance (duration_delta_per_step ad))
       (case events self event_type of None \<Rightarrow> [] | Some xs \<Rightarrow> xs))"
  define instances2 where "instances2 = (if int (length instances1) > amount self
                                  then slice_to (amount self) instances1 else instances1)"
  define mx where "mx = (if scope ad = ''group'' then 1 else amount self)"
  obtain self1 instances3 where r: "roll_slots (nat (mx - int (length instances2)))
       attr_value ad event_type (random_state w) (random_pos w) (self, instances2) = (self1, instances3)"
    by (cases "roll_slots (nat (mx - int (length instances2)))
       attr_value ad event_type (random_state w) (random_pos w) (self, instances2)")
  have "process_event self w attr attr_value =
      (case roll_slots (nat (mx - int (length instances2)))
         attr_value ad event_type (random_state w) (random_pos w) (self, instances2) of
         (self', instances3) \<Rightarrow>
           (case update_event_records event_type mx instances3 self' of
              Inl e \<Rightarrow> Inl e
            | Inr self'' \<Rightarrow>
                Inr (self'', w\<lparr>random_pos := random_pos w + nat (mx - int (length instances2))\<rparr>)))"
    unfolding process_event_def assms(2) assms(3) option.case prod.case Let_def
      instances2_def instances1_def mx_def by (rule refl)
  then have u: "update_event_records event_type mx instances3 self1 = Inr self'"
    using assms(1) r by (simp split: sum.splits)
  have l1: "length instances1 \<le> instance_count self event_type"
    unfolding instances1_def instance_count_def
    by (cases "events self event_type") (simp_all add: le_trans [OF length_filter_le])
  have l2: "length instances2 \<le> length instances1"
    unfolding instances2_def by (simp add: slice_to_length)
  have l3: "int (length instances2) \<le> max 0 (amount self) \<or> amount self < 0"
    unfolding instances2_def by (auto simp: slice_to_def)
  show thesis
    using that [of instances2 self1 instances3] l1 l2 l3 r u unfolding mx_def by simp
qed


lemma update_event_records_props:
  assumes "update_event_records event_type mx instances self1 = Inr self'"
  shows "amount self' = amount self1"
    and "instances \<noteq> [] \<Longrightarrow> events self' event_type = Some instances
          \<and> map_of (event_multipliers self') event_type =
              Some ((sum_list (map magnitude instances) + real_of_int (mx - int (length instances)))
                    / real_of_int mx)"
    and "instances = [] \<Longrightarrow> events self' event_type = None
          \<and> (map_of (event_multipliers self') event_type = None
               \<or> (events self1 event_type = None
                   \<and> event_multipliers self' = event_multipliers self1))"
  using assms
  by (auto simp: update_event_records_def Let_def update_conv' delete_conv' split: if_splits)

text \<open>
  Claim C8. After \<^verbatim>\<open>_process_event\<close> has run for an event attribute of an agent with a
  non-negative amount: a group-scope event that had at most one instance has at most one,
  an individual-scope event has at most \<open>amount\<close> instances; when instances remain, the
  multiplier of the event type is the sum of their magnitudes plus the number of empty
  slots, divided by the number of slots; when none remain, the event type has no entry in
  the events map and none in the multipliers map (the two maps being in step before, as
  the code keeps them).
\<close>

theorem event_instances_bounded:
  assumes "process_event self w attr attr_value = Inr (self', w')"
    and "split_first CHR ''_'' [] attr = Some (p, event_type)"
    and "attr_details self attr = Some ad"
    and "0 \<le> amount self"
    and "map_of (event_multipliers self) event_type \<noteq> None \<longrightarrow> events self event_type \<noteq> None"
  shows "amount self' = amount self
    \<and> (scope ad = ''group'' \<and> instance_count self event_type \<le> 1
           \<longrightarrow> instance_count self' event_type \<le> 1)
    \<and> (scope ad \<noteq> ''group'' \<longrightarrow> int (instance_count self' event_type) \<le> amount self')
    \<and> (\<forall>instances. events self' event_type = Some instances \<longrightarrow>
           instances \<noteq> []
           \<and> map_of (event_multipliers self') event_type =
               Some ((sum_list (map magnitude instances)
                      + real_of_int ((if scope ad = ''group'' then 1 else amount self')
                                     - int (length instances)))
                     / real_of_int (if scope ad = ''group'' then 1 else amount self')))
    \<and> (events self' event_type = None \<longrightarrow> map_of (event_multipliers self') event_type = None)"
proof -
  let ?mx = "if scope ad = ''group'' then 1 else amount self"
  obtain self1 instances2 instances3 where
    l1: "length instances2 \<le> instance_count self event_type"
    and l3: "int (length instances2) \<le> max 0 (amount self) \<or> amount self < 0"
    and r: "roll_slots (nat (?mx - int (length instances2)))
       attr_value ad event_type (random_state w) (random_pos w) (self, instances2) = (self1, instances3)"
    and u: "update_event_records event_type ?mx instances3 self1 = Inr self'"
    by (rule process_event_cases [OF assms(1,2,3)])
  note rp = roll_slots_props [OF r]
  note up = update_event_records_props [OF u]
  have am: "amount self' = amount self" using rp up(1) by simp
  have len3: "length instances3 \<le> length instances2 + nat (?mx - int (length instances2))"
    using rp by simp
  have cnt: "instance_count self' event_type = length instances3"
    using up(2,3) by (cases "instances3 = []") (auto simp: instance_count_def)
  have g: "scope ad = ''group'' \<and> instance_count self event_type \<le> 1
           \<longrightarrow> instance_count self' event_type \<le> 1"
    using len3 l1 cnt by auto
  have i: "scope ad \<noteq> ''group'' \<longrightarrow> int (instance_count self' event_type) \<le> amount self'"
    using len3 l3 cnt am assms(4) by auto
  have m: "\<forall>instances. events self' event_type = Some instances \<longrightarrow>
           instances \<noteq> []
           \<and> map_of (event_multipliers self') event_type =
               Some ((sum_list (map magnitude instances)
                      + real_of_int ((if scope ad = ''group'' then 1 else amount self')
                                     - int (length instances)))
                     / real_of_int (if scope ad = ''group'' then 1 else amount self'))"
    using up(2,3) am by (cases "instances3 = []") auto
  have n: "events self' event_type = None \<longrightarrow> map_of (event_multipliers self') event_type = None"
  proof
    assume none: "events self' event_type = None"
    then have e: "instances3 = []" using up(2) by auto
    from up(3) [OF e] show "map_of (event_multipliers self') event_type = None"
      using rp assms(5) by auto
  qed
  show ?thesis using am g i m n by blast
qed


text \<open>
  The crew of three: one illness expires, one stays, two new ones are rolled, and the
  multiplier is \<open>(3 * 1/2 + 0) / 3\<close>.
\<close>

theorem event_instances_bounded_witness:
  "process_event crew cabin ''event_illness'' (Str ''multiplier'') =
     Inr (crew_after, cabin\<lparr>random_pos := 2\<rparr>)
   \<and> split_first CHR ''_'' [] ''event_illness'' = Some (''event'', ''illness'')
   \<and> 0 \<le> amount crew
   \<and> events crew ''illness'' \<noteq> None
   \<and> amount crew_after = 3
   \<and> int (instance_count crew_after ''illness'') \<le> 3
   \<and> map_of (event_multipliers crew_after) ''illness'' = Some (1 / 2)"
proof -
  let ?ad = "no_details\<lparr>scope := ''individual'',
        probability_per_step := 6 / 10, magnitude_value := 1 / 2, duration_value := Some 2,
        duration_delta_per_step := 1\<rparr>"
  have 1: "process_event crew cabin ''event_illness'' (Str ''multiplier'') =
     Inr (crew_after, cabin\<lparr>random_pos := 2\<rparr>)"
    by (simp add: process_event_def crew_def crew_after_def cabin_def blank_agent_def no_details_def
      age_instance_def unexpired_def roll_slot_def new_instance_def update_event_records_def
      eval_nat_numeral)
  have 2: "split_first CHR ''_'' [] ''event_illness'' = Some (''event'', ''illness'')" by simp
  have 3: "attr_details crew ''event_illness'' = Some ?ad" by (simp add: crew_def blank_agent_def)
  have 4: "0 \<le> amount crew" by (simp add: crew_def blank_agent_def)
  have 5: "events crew ''illness'' \<noteq> None" by (simp add: crew_def blank_agent_def)
  then have 6: "map_of (event_multipliers crew) ''illness'' \<noteq> None \<longrightarrow> events crew ''illness'' \<noteq> None"
    by simp
  have a: "amount crew = 3" by (simp add: crew_def blank_agent_def)
  have e: "events crew_after ''illness'' = Some [\<lparr>magnitude = 1 / 2, duration = Some 1\<rparr>,
                                  \<lparr>magnitude = 1 / 2, duration = Some 2\<rparr>,
                                  \<lparr>magnitude = 1 / 2, duration = Some 2\<rparr>]"
    by (simp add: crew_after_def)
  have s: "scope ?ad \<noteq> ''group''" by (simp add: no_details_def)
  note t = event_instances_bounded [OF 1 2 3 4 6]
  have "amount crew_after = 3" using t a by simp
  moreover have "int (instance_count crew_after ''illness'') \<le> 3" using t a s by simp
  moreover have "map_of (event_multipliers crew_after) ''illness'' = Some (1 / 2)"
    using t e a s by simp
  ultimately show ?thesis using 1 2 4 5 by blast
qed

subsection \<open>The step: age, deprivation and exchange\<close>

lemma increment_age:
  assumes "increment (s :: agent) v a = Inr (s', flow)"
  shows "age s' = age s"
proof -
  obtain bal' where "s' = s\<lparr>balance := bal'\<rparr>" using increment_frame [OF assms] by blast
  then show ?thesis by simp
qed

lemma increment_ref_age:
  assumes "increment_ref me self w r c a = Inr (self', w', flow)"
  shows "age self' = age self"
  using assms increment_age
  by (auto simp: increment_ref_def split: if_splits sum.splits option.splits)

lemma exchange_conn_age:
  assumes "exchange_conn me d c n av eps conn (self, w, rem, influx) = Inr (self', w', rem', influx')"
  shows "age self' = age self"
  using assms increment_ref_age
  by (auto simp: exchange_conn_def Let_def split: sum.splits if_splits option.splits)

lemma exchange_age:
  "exchange me d c n av eps conns (self, w, rem, influx) = Inr (self', w', rem', influx')
     \<Longrightarrow> age self' = age self"
proof (induction conns arbitrary: self w rem influx)
  case Nil
  then show ?case by simp
next
  case (Cons conn conns)
  from Cons.prems obtain st1 where
    1: "exchange_conn me d c n av eps conn (self, w, rem, influx) = Inr st1"
    and 2: "exchange me d c n av eps conns st1 = Inr (self', w', rem', influx')"
    by (auto split: sum.splits)
  obtain s1 w1 r1 i1 where st1: "st1 = (s1, w1, r1, i1)" by (cases st1)
  have "age s1 = age self" using exchange_conn_age 1 st1 by simp
  moreover have "age self' = age s1" using Cons.IH 2 st1 by simp
  ultimately show ?case by simp
qed

lemma get_step_value_age:
  assumes "get_step_value me self w attr n = Inr (self', v)"
  shows "age self' = age self"
  using assms
  by (auto simp: get_step_value_def return_step_value_def Let_def
      split: option.splits sum.splits if_splits)

lemma flow_target_age:
  assumes "flow_target me self w attr = Inr (self', v)"
  shows "age self' = age self"
  using assms get_step_value_age
  by (auto simp: flow_target_def split: sum.splits)

lemma deprive_stage_age:
  assumes "deprive_stage attr c ad deficit av sm act self = Inr (killed, self', act')"
  shows "age self' = age self"
  using assms
  by (auto simp: deprive_stage_def Let_def kill_def split: option.splits if_splits sum.splits)


lemma update_event_records_age:
  assumes "update_event_records et mx instances self1 = Inr self'"
  shows "age self' = age self1"
  using assms by (auto simp: update_event_records_def Let_def split: if_splits)

lemma process_event_age:
  assumes "process_event self w attr attr_value = Inr (self', w')"
  shows "age self' = age self"
proof -
  from assms obtain p event_type where 1: "split_first CHR ''_'' [] attr = Some (p, event_type)"
    by (auto simp: process_event_def split: option.splits)
  from assms 1 obtain ad where 2: "attr_details self attr = Some ad"
    by (auto simp: process_event_def split: option.splits)
  obtain self1 instances2 instances3 where
    r: "roll_slots (nat ((if scope ad = ''group'' then 1 else amount self) - int (length instances2)))
       attr_value ad event_type (random_state w) (random_pos w) (self, instances2) = (self1, instances3)"
    and u: "update_event_records event_type (if scope ad = ''group'' then 1 else amount self) instances3 self1
       = Inr self'"
    by (rule process_event_cases [OF assms 1 2])
  show ?thesis using roll_slots_props [OF r] update_event_records_age [OF u] by simp
qed

lemma step_attr_age:
  assumes "step_attr cf me attr attr_value self w = Inr (killed, self', w')"
    and "keeps_age cf"
  shows "age self' = age self"
proof -
  from assms(1) obtain met where m: "(if startswith attr ''char_threshold_''
            then check_threshold me self w attr attr_value else Inr False) = Inr met"
    by (auto simp: step_attr_def split: sum.splits)
  show ?thesis
  proof (cases met)
    case True
    then show ?thesis using assms(1) m by (auto simp: step_attr_def kill_def)
  next
    case False
    from assms(1) m False obtain self1 w1 where
      c: "(if attr = ''char_custom_function''
                    then custom_function cf me self w attr_value else Inr (self, w)) = Inr (self1, w1)"
      and e: "(if startswith attr ''event'' \<and> process_events self1
                         then process_event self1 w1 attr attr_value else Inr (self1, w1)) = Inr (self', w')"
      by (auto simp: step_attr_def split: sum.splits)
    have "age self1 = age self"
    proof (cases "attr = ''char_custom_function''")
      case True
      with c obtain name f where f: "cf name = Some f" "f me self w = (self1, w1)"
        by (auto simp: custom_function_def split: attr_value.splits option.splits)
      have "age (fst (f me self w)) = age self"
        using assms(2) f(1) unfolding keeps_age_def by blast
      then show ?thesis using f(2) by simp
    next
      case False
      with c show ?thesis by simp
    qed
    moreover have "age self' = age self1"
      using e process_event_age by (auto split: if_splits)
    ultimately show ?thesis by simp
  qed
qed

lemma step_attrs_age:
  assumes "keeps_age cf"
  shows "step_attrs cf me as self w = Inr (killed, self', w') \<Longrightarrow> age self' = age self"
proof (induction as arbitrary: self w)
  case Nil
  then show ?case by simp
next
  case (Cons a as)
  obtain attr attr_value where a: "a = (attr, attr_value)" by (cases a)
  from Cons.prems a obtain k1 s1 w1 where
    1: "step_attr cf me attr attr_value self w = Inr (k1, s1, w1)"
    by (auto split: sum.splits)
  have s1: "age s1 = age self" by (rule step_attr_age [OF 1 assms])
  show ?case
  proof (cases k1)
    case True
    then show ?thesis using Cons.prems a 1 s1 by simp
  next
    case False
    then have "step_attrs cf me as s1 w1 = Inr (killed, self', w')"
      using Cons.prems a 1 by simp
    then show ?thesis using Cons.IH s1 by simp
  qed
qed

lemma process_flow_age:
  assumes "process_flow me eps d c refs (self, w, influx) = Inr (res, self', w', influx')"
  shows "age self' = age self"
proof -
  let ?attr = "prefix_of d @ ''_'' @ c"
  from assms obtain ad av where ad: "attr_details self ?attr = Some ad"
    and av: "map_of (attrs self) ?attr = Some av"
    by (auto simp: process_flow_def Let_def split: option.splits)
  show ?thesis
  proof (cases "av = Num 0 \<or> (requires ad \<noteq> [] \<and> list_ex (\<lambda>x. x \<notin> set influx) (requires ad))")
    case True
    then have "process_flow me eps d c refs (self, w, influx) = Inr (Next, self, w, influx)"
      using ad av by (auto simp: process_flow_def Let_def)
    then show ?thesis using assms by simp
  next
    case False
    with assms ad av obtain self1 step_mag conns where
      ft: "flow_target me self w ?attr = Inr (self1, step_mag)"
      and ac: "available_conns me self1 w c refs = Inr conns"
      by (auto simp: process_flow_def Let_def split: sum.splits)
    have a1: "age self1 = age self" by (rule flow_target_age [OF ft])
    let ?target = "step_mag * real_of_int (amount self1)"
    let ?avail = "sum_list (map (\<lambda>conn. fst (snd conn)) conns)"
    let ?deficit = "d = In \<and> ?avail < ?target"
    let ?req = "case is_required ad of None \<Rightarrow> [] | Some x \<Rightarrow> x"
    show ?thesis
    proof (cases "?deficit \<and> ?req = ''mandatory''")
      case True
      then show ?thesis using assms ad av False ft ac a1
        by (auto simp: process_flow_def Let_def)
    next
      case nm: False
      let ?s = "if ?deficit \<and> ?req = ''desired'' then self1\<lparr>missing_desired := True\<rparr> else self1"
      from assms ad av False ft ac nm obtain killed self2 actual where
        ds: "deprive_stage ?attr c ad ?deficit ?avail step_mag ?target ?s = Inr (killed, self2, actual)"
        by (auto simp: process_flow_def Let_def split: sum.splits)
      have a2: "age self2 = age self"
        using deprive_stage_age [OF ds] a1 by (auto split: if_splits)
      show ?thesis
      proof (cases killed)
        case True
        then show ?thesis using assms ad av False ft ac nm ds a2
          by (auto simp: process_flow_def Let_def)
      next
        case False
        from assms ad av \<open>\<not> (av = Num 0 \<or> _)\<close> ft ac nm ds False obtain rem where
          "exchange me d c (length conns) actual eps conns (self2, w, actual, influx)
             = Inr (self', w', rem, influx')"
          by (auto simp: process_flow_def Let_def split: sum.splits)
        then show ?thesis using exchange_age a2 by simp
      qed
    qed
  qed
qed

lemma process_flows_age:
  "process_flows me eps flows (self, w, influx) = Inr (res, self', w', influx')
     \<Longrightarrow> age self' = age self"
proof (induction flows arbitrary: self w influx)
  case Nil
  then show ?case by simp
next
  case (Cons fl flows)
  obtain d c refs where fl: "fl = (d, c, refs)" by (cases fl)
  from Cons.prems fl obtain r1 s1 w1 i1 where
    1: "process_flow me eps d c refs (self, w, influx) = Inr (r1, s1, w1, i1)"
    by (auto split: sum.splits)
  have a1: "age s1 = age self" by (rule process_flow_age [OF 1])
  show ?case
  proof (cases "r1 = Next")
    case True
    then have "process_flows me eps flows (s1, w1, i1) = Inr (res, self', w', influx')"
      using Cons.prems fl 1 by simp
    then show ?thesis using Cons.IH a1 by simp
  next
    case False
    then show ?thesis using Cons.prems fl 1 a1 by simp
  qed
qed

lemma storage_step_hours:
  assumes "storage_step self w = Inr w0"
  shows "hours_per_step w0 = hours_per_step w"
  using assms
  by (auto simp: storage_step_def calculate_storage_ratios_def Let_def split: if_splits sum.splits)

lemmas habitat_defs = human_def habitat_def habitat_air_def blank_agent_def no_details_def
  no_custom_funcs_def

lemmas step_defs = step_def storage_step_def has_storage_def startswith_def step_attr_def
  check_threshold_def split_def threshold_met_def resolve_def kill_def generate_step_variable_def
  process_flow_def flow_target_def get_step_value_def return_step_value_def
  lookup_step_value_def getitem_def py_int_def available_conn_def view_def deprive_stage_def
  or_zero_def exchange_conn_def increment_ref_def increment_def Let_def

text \<open>
  Claim C9, as stated, has the age stand still when the step aborts at the threshold kill
  or at the mandatory deficit. The step adds \<^verbatim>\<open>hours_per_step\<close> to the age before it looks
  at any attribute: the crew killed by the oxygen threshold and the crew of eight that
  finds 5 units of oxygen for a mandatory need of 8 both go from age 10 to age 11.
\<close>

theorem aborted_steps_advance_age:
  "age human = 10 \<and> age gasping = 10 \<and> hours_per_step habitat = 1
   \<and> outcome_and_age (step no_custom_funcs (1 / 10 ^ 12) ''crew'' human habitat)
       = Some (Threshold_Kill, 11)
   \<and> outcome_and_age (step no_custom_funcs (1 / 10 ^ 12) ''crew'' gasping habitat)
       = Some (Mandatory_Abort, 11)"
  by (simp add: step_defs habitat_defs gasping_def outcome_and_age_def)

text \<open>
  Claim C9, amended. For a flow agent whose custom behaviours leave the age alone, every
  step that returns, however it ends (completed, threshold kill, mandatory-deficit abort
  or death by deprivation), leaves the age at its old value plus \<^verbatim>\<open>hours_per_step\<close>.
\<close>

theorem step_advances_age:
  assumes "step cf value_eps me self w = Inr (out, self', w')" and "keeps_age cf"
  shows "age self' = age self + hours_per_step w"
proof -
  from assms(1) obtain w0 where 0: "storage_step self w = Inr w0"
    by (auto simp: step_def split: sum.splits)
  let ?self0 = "self\<lparr>step_exchange_buffer := Map.empty, age := age self + hours_per_step w0\<rparr>"
  from assms(1) 0 obtain killed self1 w1 where
    1: "step_attrs cf me (attrs ?self0) ?self0 w0 = Inr (killed, self1, w1)"
    by (auto simp: step_def Let_def split: sum.splits)
  have a1: "age self1 = age self + hours_per_step w"
    using step_attrs_age [OF assms(2) 1] storage_step_hours [OF 0] by simp
  show ?thesis
  proof (cases killed)
    case True
    then show ?thesis using assms(1) 0 1 a1 by (simp add: step_def Let_def)
  next
    case False
    obtain self2 w2 where 2: "generate_step_variable self1 w1 = (self2, w2)"
      by (cases "generate_step_variable self1 w1")
    have a2: "age self2 = age self1"
      using 2 by (auto simp: generate_step_variable_def split: if_splits)
    let ?self3 = "self2\<lparr>missing_desired := False\<rparr>"
    let ?flows = "map (\<lambda>(currency, storages). (In, currency, storages)) (selected_storage ?self3 In)
                @ map (\<lambda>(currency, storages). (Out, currency, storages)) (selected_storage ?self3 Out)"
    from assms(1) 0 1 False 2 obtain res influx where
      3: "process_flows me value_eps ?flows (?self3, w2, []) = Inr (res, self', w', influx)"
      by (auto simp: step_def Let_def split: sum.splits)
    have "age self' = age ?self3" by (rule process_flows_age [OF 3])
    then show ?thesis using a1 a2 by simp
  qed
qed

text \<open>The crew that survives the threshold and breathes: a completed step, age 11.\<close>

theorem step_advances_age_witness:
  "keeps_age no_custom_funcs
   \<and> outcome_and_age (step no_custom_funcs (1 / 10 ^ 12) ''crew'' breathing habitat)
       = Some (Completed, age breathing + hours_per_step habitat)"
proof -
  have k: "keeps_age no_custom_funcs" by (simp add: keeps_age_def no_custom_funcs_def)
  have "outcome_and_age (step no_custom_funcs (1 / 10 ^ 12) ''crew'' breathing habitat)
       = Some (Completed, 11)"
    by (simp add: step_defs habitat_defs breathing_def outcome_and_age_def)
  then obtain a w' where s: "step no_custom_funcs (1 / 10 ^ 12) ''crew'' breathing habitat
       = Inr (Completed, a, w')"
    by (auto simp: outcome_and_age_def split: sum.splits)
  have "age a = age breathing + hours_per_step habitat" by (rule step_advances_age [OF s k])
  then show ?thesis using s k by (simp add: outcome_and_age_def)
qed


text \<open>
  Claim C6 has an output split evenly over the connected storages. The loop divides what
  is left, not the whole quantity, by the number of connections: of the 100 units of
  oxygen that the electrolyser gives off, the first tank gets 50, the second 25, and 25
  are lost.
\<close>

theorem out_flow_not_split_evenly:
  "stored_after (step no_custom_funcs (1 / 10 ^ 12) ''gen'' electrolyser plant_room) ''tank_a'' ''o2''
     = Some 50
   \<and> stored_after (step no_custom_funcs (1 / 10 ^ 12) ''gen'' electrolyser plant_room) ''tank_b'' ''o2''
     = Some 25"
  by (simp add: step_defs stored_after_def electrolyser_def plant_room_def o2_tank_a_def
      o2_tank_b_def habitat_defs)









end
